theory Spec2Isabelle
  imports Main "HOL-Library.Word" "HOL-Library.AList" "HOL-Library.Signed_Division"
begin

section \<open>Session manager: data model\<close>

text \<open>
  The session manager of \<^verbatim>\<open>session_manager/session_manager.go\<close>. Identifiers
  (\<^verbatim>\<open>uint64\<close>) are 64-bit words, payloads are byte strings.
\<close>

type_synonym uid = "64 word"
type_synonym bytes = "8 word list"

definition SessionManagerUserId :: uid where
  "SessionManagerUserId = 0xffffffffffffffff"

text \<open>
  Modelled from the spec: the signal kinds, call modes, participant states and participant
  events are constants of the package declared outside the two source files; the spec
  lists them as enumerations. \<open>YCKCallSignalTypeOther\<close> stands for every numeric kind
  outside the enumeration (the \<^verbatim>\<open>default\<close> arms of the handler), and
  \<open>YCKParticipantEventNone\<close> for the event of a participant nothing has happened to yet.
\<close>

datatype SignalType =
    YCKCallSignalTypeSidRequest
  | YCKCallSignalTypeSidCreated
  | YCKCallSignalTypeInvite
  | YCKCallSignalTypeCancel
  | YCKCallSignalTypeAccept
  | YCKCallSignalTypeReject
  | YCKCallSignalTypeBusy
  | YCKCallSignalTypeRing
  | YCKCallSignalTypeEnd
  | YCKCallSignalTypeMemberOp
  | YCKCallSignalTypeMemberState
  | YCKCallSignalTypeOther nat

datatype CallMode = YCKCallModeUndecided | YCKCallModeOneToOne | YCKCallModeMultiple

datatype ParticipantState =
    YCKParticipantStateIdle
  | YCKParticipantStateCalling
  | YCKParticipantStateCalled
  | YCKParticipantStateIncall

datatype ParticipantEvent =
    YCKParticipantEventNone
  | YCKParticipantEventInvite
  | YCKParticipantEventRecvInvite
  | YCKParticipantEventCancel
  | YCKParticipantEventRecvCancel
  | YCKParticipantEventAccept
  | YCKParticipantEventRecvAccept
  | YCKParticipantEventReject
  | YCKParticipantEventRecvReject
  | YCKParticipantEventBusy
  | YCKParticipantEventRecvBusy
  | YCKParticipantEventEnd
  | YCKParticipantEventRecvEnd

text \<open>
  Modelled from the spec: the free-form \<^verbatim>\<open>Info\<close> map of a signal holds decoded JSON
  values, numbers kept as their literal text (\<^verbatim>\<open>json.Number\<close>). \<open>JMemberStates\<close> is
  the table \<^verbatim>\<open>map[string]map[string]uint16\<close> the fan-out stores under \<^verbatim>\<open>"state"\<close>:
  every key is mapped to its \<^verbatim>\<open>{state, event}\<close> pair. \<open>JOther\<close> is any other value
  (null, a boolean, an object).
\<close>

datatype jvalue =
    JString string
  | JNumber string
  | JArray "jvalue list"
  | JMemberStates "string \<rightharpoonup> ParticipantState \<times> ParticipantEvent"
  | JOther

text \<open>
  Modelled from the spec: the \<^verbatim>\<open>Signal\<close>, \<^verbatim>\<open>Participant\<close> and \<^verbatim>\<open>Session\<close> structs
  and their constructors are declared outside the two source files; the fields are those
  the handler reads and writes.
\<close>

record Signal =
  Signal :: SignalType
  From :: uid
  To :: uid
  SessionId :: uid
  Info :: "string \<rightharpoonup> jvalue"

record Participant =
  Uid :: uid
  State :: ParticipantState
  Event :: ParticipantEvent

text \<open>
  \<^verbatim>\<open>Participants\<close> is a Go map from uid to \<^verbatim>\<open>*Participant\<close>. The fan-out ranges over
  it, so it is an association list with one entry per key (\<open>AList.update\<close> keeps that);
  the list order is one of the orders Go's unspecified map iteration may take.
\<close>

type_synonym participants = "(uid \<times> Participant) list"

record Session =
  Sid :: uid
  Mode :: CallMode
  Participants :: participants

definition NewSignal :: "SignalType \<Rightarrow> uid \<Rightarrow> uid \<Rightarrow> uid \<Rightarrow> Signal" where
  "NewSignal k f t sid = \<lparr>Signal = k, From = f, To = t, SessionId = sid, Info = Map.empty\<rparr>"

definition NewParticipant :: "uid \<Rightarrow> Participant" where
  "NewParticipant u =
     \<lparr>Uid = u, State = YCKParticipantStateIdle, Event = YCKParticipantEventNone\<rparr>"

definition NewSession :: "uid \<Rightarrow> Session" where
  "NewSession sid = \<lparr>Sid = sid, Mode = YCKCallModeUndecided, Participants = []\<rparr>"

definition InState :: "Participant \<Rightarrow> ParticipantState \<Rightarrow> bool" where
  "InState p s = (State p = s)"

text \<open>
  The part of \<^verbatim>\<open>relay.Message\<close> that \<^verbatim>\<open>relay.NewMessage\<close> is given by the handler:
  message type, source, destination and payload.
\<close>

datatype MessageType =
    UdpMessageTypeUserReg
  | UdpMessageTypeUserRegReceived
  | UdpMessageTypeUserSignal

record Message =
  MsgType :: MessageType
  MsgFrom :: uid
  MsgTo :: uid
  Payload :: bytes

definition NewMessage :: "MessageType \<Rightarrow> uid \<Rightarrow> uid \<Rightarrow> bytes \<Rightarrow> Message" where
  "NewMessage ty f t payload = \<lparr>MsgType = ty, MsgFrom = f, MsgTo = t, Payload = payload\<rparr>"

text \<open>
  Modelled from the spec: \<^verbatim>\<open>utils.LRU\<close>, the dedup cache, is declared outside the two
  source files. The spec: a bounded mapping from a byte key to a presence marker;
  \<^verbatim>\<open>contains\<close> reads without refresh; \<^verbatim>\<open>add\<close> updates a present key and otherwise
  inserts, evicting the least recently added entry when full. The newest entry is the head
  of \<open>entries\<close>.
\<close>

record LRU =
  capacity :: nat
  entries :: "(bytes \<times> bool) list"

definition NewLRU :: "nat \<Rightarrow> LRU" where
  "NewLRU n = \<lparr>capacity = n, entries = []\<rparr>"

definition Contains :: "LRU \<Rightarrow> bytes \<Rightarrow> bool" where
  "Contains c k = (map_of (entries c) k \<noteq> None)"

definition Add :: "LRU \<Rightarrow> bytes \<Rightarrow> bool \<Rightarrow> LRU" where
  "Add c k v =
     (if Contains c k then c\<lparr>entries := AList.update k v (entries c)\<rparr>
      else c\<lparr>entries := take (capacity c) ((k, v) # entries c)\<rparr>)"

text \<open>
  The state the event loop owns. \<open>randSource\<close> is the injected source of
  \<^verbatim>\<open>rand.Uint64()\<close>: the values the next calls return, in order.
\<close>

record SessionManager =
  sessions :: "uid \<rightharpoonup> Session"
  dedup :: LRU
  randSource :: "uid list"

definition NewSessionManager :: "uid list \<Rightarrow> SessionManager" where
  "NewSessionManager rs = \<lparr>sessions = Map.empty, dedup = NewLRU 100, randSource = rs\<rparr>"

text \<open>
  What ends a handler without a result: a Go run-time panic (which nothing recovers, so
  the process dies), or the Sid allocation loop never finding a free value.
\<close>

datatype failure = NilDereference | InterfaceConversion | IndexOutOfRange | NoReturn

definition bindR :: "failure + 'a \<Rightarrow> ('a \<Rightarrow> failure + 'b) \<Rightarrow> failure + 'b" where
  "bindR r f = (case r of Inl e \<Rightarrow> Inl e | Inr x \<Rightarrow> f x)"

section \<open>Decimal numbers\<close>

text \<open>
  \<^verbatim>\<open>strconv.FormatUint(u, 10)\<close> and \<^verbatim>\<open>strconv.ParseUint(s, 10, 64)\<close>: the latter
  fails on the empty string, on any character that is not a decimal digit (no sign, no
  underscore) and on a value beyond 64 bits.
\<close>

fun digits :: "nat \<Rightarrow> string" where
  "digits n =
     (if n < 10 then [''0123456789'' ! n]
      else digits (n div 10) @ [''0123456789'' ! (n mod 10)])"

declare digits.simps [simp del]

definition FormatUint :: "uid \<Rightarrow> string" where
  "FormatUint u = digits (unat u)"

definition digitVal :: "char \<Rightarrow> nat option" where
  "digitVal c =
     (let n = (of_char c :: nat) in if 48 \<le> n \<and> n \<le> 57 then Some (n - 48) else None)"

fun parseDigits :: "nat \<Rightarrow> string \<Rightarrow> nat option" where
  "parseDigits acc [] = Some acc"
| "parseDigits acc (c # cs) =
     (case digitVal c of None \<Rightarrow> None | Some d \<Rightarrow> parseDigits (acc * 10 + d) cs)"

definition ParseUint :: "string \<Rightarrow> uid option" where
  "ParseUint s =
     (if s = [] then None
      else case parseDigits 0 s of
             None \<Rightarrow> None
           | Some n \<Rightarrow> if n < 2 ^ 64 then Some (word_of_nat n) else None)"

section \<open>Session manager: the signal handler\<close>

text \<open>
  A \<^verbatim>\<open>*Participant\<close> is modelled by the key under which the participant is stored in
  \<^verbatim>\<open>session.Participants\<close>; the nil pointer is the absent key. Modelled from the
  spec: \<^verbatim>\<open>SetState\<close> and \<^verbatim>\<open>SetEvent\<close> store into the field of their receiver, so
  that calling them through a nil pointer is a nil dereference.
\<close>

definition SetState :: "uid \<Rightarrow> ParticipantState \<Rightarrow> participants \<Rightarrow> failure + participants" where
  "SetState u s ps =
     (case map_of ps u of
        None \<Rightarrow> Inl NilDereference
      | Some p \<Rightarrow> Inr (AList.update u (p\<lparr>State := s\<rparr>) ps))"

definition SetEvent :: "uid \<Rightarrow> ParticipantEvent \<Rightarrow> participants \<Rightarrow> failure + participants" where
  "SetEvent u e ps =
     (case map_of ps u of
        None \<Rightarrow> Inl NilDereference
      | Some p \<Rightarrow> Inr (AList.update u (p\<lparr>Event := e\<rparr>) ps))"

text \<open>
  The four statements every arm of the 1-1 switch runs once its guard holds:
  \<^verbatim>\<open>pf.SetState; pt.SetState; pf.SetEvent; pt.SetEvent\<close>, in this order.
\<close>

definition transition ::
  "uid \<Rightarrow> uid \<Rightarrow> ParticipantState \<Rightarrow> ParticipantState \<Rightarrow> ParticipantEvent \<Rightarrow> ParticipantEvent
     \<Rightarrow> participants \<Rightarrow> failure + participants" where
  "transition f t sf st ef et ps =
     bindR (SetState f sf ps) (\<lambda>ps1.
     bindR (SetState t st ps1) (\<lambda>ps2.
     bindR (SetEvent f ef ps2) (\<lambda>ps3.
     SetEvent t et ps3)))"

text \<open>
  The switch of the 1-1 branch (lines 249 to 305). \<open>pf\<close> and \<open>pt\<close> are read before the
  switch. Only the Invite arm creates missing participants; the created \<open>pf\<close> is Idle,
  which is what its guard then reads. When \<open>From = To\<close> the two pointers are one
  participant (or, when the Invite arm creates both, the second creation replaces the
  first in the map): the four stores, applied to the table in the source's order, leave
  the table the stores through the pointers leave.
\<close>

definition oneToOneSwitch :: "Signal \<Rightarrow> participants \<Rightarrow> failure + participants" where
  "oneToOneSwitch signal ps =
     (let f = From signal; t = To signal; pf = map_of ps f; pt = map_of ps t in
      case Signal signal of
        YCKCallSignalTypeInvite \<Rightarrow>
          (let ps1 = (if pf = None then AList.update f (NewParticipant f) ps else ps);
               ps2 = (if pt = None then AList.update t (NewParticipant t) ps1 else ps1);
               pf' = (case pf of None \<Rightarrow> NewParticipant f | Some p \<Rightarrow> p)
           in if InState pf' YCKParticipantStateIdle
              then transition f t YCKParticipantStateCalling YCKParticipantStateCalled
                     YCKParticipantEventInvite YCKParticipantEventRecvInvite ps2
              else Inr ps2)
      | YCKCallSignalTypeCancel \<Rightarrow>
          (case pf of
             None \<Rightarrow> Inr ps
           | Some p \<Rightarrow>
               if InState p YCKParticipantStateCalling \<or> InState p YCKParticipantStateIncall
               then transition f t YCKParticipantStateIdle YCKParticipantStateIdle
                      YCKParticipantEventCancel YCKParticipantEventRecvCancel ps
               else Inr ps)
      | YCKCallSignalTypeAccept \<Rightarrow>
          (case pf of
             None \<Rightarrow> Inr ps
           | Some p \<Rightarrow>
               if InState p YCKParticipantStateCalled
               then transition f t YCKParticipantStateIncall YCKParticipantStateIncall
                      YCKParticipantEventAccept YCKParticipantEventRecvAccept ps
               else Inr ps)
      | YCKCallSignalTypeReject \<Rightarrow>
          (case pf of
             None \<Rightarrow> Inr ps
           | Some p \<Rightarrow>
               if InState p YCKParticipantStateCalled
               then transition f t YCKParticipantStateIdle YCKParticipantStateIdle
                      YCKParticipantEventReject YCKParticipantEventRecvReject ps
               else Inr ps)
      | YCKCallSignalTypeBusy \<Rightarrow>
          (case pf of
             None \<Rightarrow> Inr ps
           | Some p \<Rightarrow>
               if InState p YCKParticipantStateCalled
               then transition f t YCKParticipantStateIdle YCKParticipantStateIdle
                      YCKParticipantEventBusy YCKParticipantEventRecvBusy ps
               else Inr ps)
      | YCKCallSignalTypeEnd \<Rightarrow>
          (case pf of
             None \<Rightarrow> Inr ps
           | Some p \<Rightarrow>
               transition f t YCKParticipantStateIdle YCKParticipantStateIdle
                 YCKParticipantEventEnd YCKParticipantEventRecvEnd ps)
      | _ \<Rightarrow> Inr ps)"

text \<open>
  The 1-1 branch (lines 231 to 305): refuse in Multiple mode, otherwise set the mode,
  forward the signal to \<open>To\<close> (a marshal error returns, the mode already set), then run
  the switch. The result is the session as the handler leaves it and the messages sent.
\<close>

definition send :: "(Signal \<Rightarrow> bytes option) \<Rightarrow> Signal \<Rightarrow> uid \<Rightarrow> Message list" where
  "send mar s dst =
     (case mar s of
        None \<Rightarrow> []
      | Some payload \<Rightarrow> [NewMessage UdpMessageTypeUserSignal SessionManagerUserId dst payload])"

definition handleOneToOne ::
  "(Signal \<Rightarrow> bytes option) \<Rightarrow> Session \<Rightarrow> Signal \<Rightarrow> failure + Session \<times> Message list" where
  "handleOneToOne mar session signal =
     (if Mode session = YCKCallModeMultiple then Inr (session, [])
      else
        let session1 = session\<lparr>Mode := YCKCallModeOneToOne\<rparr> in
        case mar signal of
          None \<Rightarrow> Inr (session1, [])
        | Some payload \<Rightarrow>
            bindR (oneToOneSwitch signal (Participants session1)) (\<lambda>ps.
              Inr (session1\<lparr>Participants := ps\<rparr>,
                   [NewMessage UdpMessageTypeUserSignal SessionManagerUserId (To signal) payload])))"

text \<open>
  The two loops of the MemberOp arm (lines 385 to 413 and 415 to 441). The unchecked type
  assertion \<^verbatim>\<open>value.(json.Number)\<close> panics on a member that is not a number; a number
  that \<^verbatim>\<open>ParseUint\<close> rejects is skipped with a warning.
\<close>

fun inviteMembers ::
  "(Signal \<Rightarrow> bytes option) \<Rightarrow> uid \<Rightarrow> jvalue list \<Rightarrow> participants \<times> Message list
     \<Rightarrow> failure + participants \<times> Message list" where
  "inviteMembers mar sid [] acc = Inr acc"
| "inviteMembers mar sid (v # vs) (ps, out) =
     (case v of
        JNumber s \<Rightarrow>
          (case ParseUint s of
             None \<Rightarrow> inviteMembers mar sid vs (ps, out)
           | Some mem \<Rightarrow>
               (let ps1 = (if map_of ps mem = None
                           then AList.update mem (NewParticipant mem) ps else ps)
                in if (case map_of ps1 mem of
                         None \<Rightarrow> False
                       | Some p \<Rightarrow> InState p YCKParticipantStateIdle)
                   then bindR (SetState mem YCKParticipantStateCalled ps1) (\<lambda>ps2.
                        bindR (SetEvent mem YCKParticipantEventRecvInvite ps2) (\<lambda>ps3.
                        inviteMembers mar sid vs
                          (ps3, out @ send mar
                             (NewSignal YCKCallSignalTypeInvite SessionManagerUserId mem sid)
                             mem)))
                   else inviteMembers mar sid vs (ps1, out)))
      | _ \<Rightarrow> Inl InterfaceConversion)"

fun kickMembers ::
  "(Signal \<Rightarrow> bytes option) \<Rightarrow> uid \<Rightarrow> jvalue list \<Rightarrow> participants \<times> Message list
     \<Rightarrow> failure + participants \<times> Message list" where
  "kickMembers mar sid [] acc = Inr acc"
| "kickMembers mar sid (v # vs) (ps, out) =
     (case v of
        JNumber s \<Rightarrow>
          (case ParseUint s of
             None \<Rightarrow> kickMembers mar sid vs (ps, out)
           | Some mem \<Rightarrow>
               (let ps1 = (if map_of ps mem = None
                           then AList.update mem (NewParticipant mem) ps else ps)
                in if (case map_of ps1 mem of
                         None \<Rightarrow> False
                       | Some p \<Rightarrow> InState p YCKParticipantStateIncall)
                   then bindR (SetState mem YCKParticipantStateIdle ps1) (\<lambda>ps2.
                        bindR (SetEvent mem YCKParticipantEventRecvEnd ps2) (\<lambda>ps3.
                        kickMembers mar sid vs
                          (ps3, out @ send mar
                             (NewSignal YCKCallSignalTypeEnd SessionManagerUserId mem sid)
                             mem)))
                   else kickMembers mar sid vs (ps1, out)))
      | _ \<Rightarrow> Inl InterfaceConversion)"

definition memberOp ::
  "(Signal \<Rightarrow> bytes option) \<Rightarrow> uid \<Rightarrow> Signal \<Rightarrow> participants
     \<Rightarrow> failure + participants \<times> Message list" where
  "memberOp mar sid signal ps =
     (case (Info signal ''op'', Info signal ''members'') of
        (Some (JString op), Some (JArray members)) \<Rightarrow>
          if op = ''invite'' then inviteMembers mar sid members (ps, [])
          else if op = ''kick'' then kickMembers mar sid members (ps, [])
          else Inr (ps, [])
      | _ \<Rightarrow> Inr (ps, []))"

text \<open>
  The switch of the multi-party branch (lines 317 to 451), on the session with its mode
  already promoted from Undecided.
\<close>

definition multipleSwitch ::
  "(Signal \<Rightarrow> bytes option) \<Rightarrow> Session \<Rightarrow> Signal \<Rightarrow> failure + Session \<times> Message list" where
  "multipleSwitch mar session signal =
     (let f = From signal; ps = Participants session; pf = map_of ps f in
      case Signal signal of
        YCKCallSignalTypeInvite \<Rightarrow>
          (let ps1 = (if pf = None then AList.update f (NewParticipant f) ps else ps);
               pf' = (case pf of None \<Rightarrow> NewParticipant f | Some p \<Rightarrow> p)
           in if InState pf' YCKParticipantStateIdle
              then bindR (SetState f YCKParticipantStateCalling ps1) (\<lambda>ps2.
                   bindR (SetEvent f YCKParticipantEventInvite ps2) (\<lambda>ps3.
                   bindR (SetState f YCKParticipantStateIncall ps3) (\<lambda>ps4.
                   bindR (SetEvent f YCKParticipantEventRecvAccept ps4) (\<lambda>ps5.
                   Inr (session\<lparr>Participants := ps5\<rparr>,
                        send mar (NewSignal YCKCallSignalTypeRing SessionManagerUserId f
                                    (Sid session)) f
                        @ send mar (NewSignal YCKCallSignalTypeAccept SessionManagerUserId f
                                      (Sid session)) f)))))
              else Inr (session\<lparr>Participants := ps1\<rparr>, []))
      | YCKCallSignalTypeCancel \<Rightarrow>
          (case pf of
             None \<Rightarrow> Inr (session, [])
           | Some p \<Rightarrow>
               if InState p YCKParticipantStateCalling \<or> InState p YCKParticipantStateIncall
               then bindR (SetState f YCKParticipantStateIdle ps) (\<lambda>ps1.
                    bindR (SetEvent f YCKParticipantEventCancel ps1) (\<lambda>ps2.
                    Inr (session\<lparr>Participants := ps2\<rparr>, [])))
               else Inr (session, []))
      | YCKCallSignalTypeEnd \<Rightarrow>
          (case pf of
             None \<Rightarrow> Inr (session, [])
           | Some p \<Rightarrow>
               bindR (SetState f YCKParticipantStateIdle ps) (\<lambda>ps1.
               bindR (SetEvent f YCKParticipantEventEnd ps1) (\<lambda>ps2.
               Inr (session\<lparr>Participants := ps2\<rparr>, []))))
      | YCKCallSignalTypeAccept \<Rightarrow>
          (case pf of
             None \<Rightarrow> Inr (session, [])
           | Some p \<Rightarrow>
               if InState p YCKParticipantStateCalled
               then bindR (SetState f YCKParticipantStateIncall ps) (\<lambda>ps1.
                    bindR (SetEvent f YCKParticipantEventAccept ps1) (\<lambda>ps2.
                    Inr (session\<lparr>Participants := ps2\<rparr>, [])))
               else Inr (session, []))
      | YCKCallSignalTypeReject \<Rightarrow>
          (case pf of
             None \<Rightarrow> Inr (session, [])
           | Some p \<Rightarrow>
               if InState p YCKParticipantStateCalled
               then bindR (SetState f YCKParticipantStateIdle ps) (\<lambda>ps1.
                    bindR (SetEvent f YCKParticipantEventReject ps1) (\<lambda>ps2.
                    Inr (session\<lparr>Participants := ps2\<rparr>, [])))
               else Inr (session, []))
      | YCKCallSignalTypeBusy \<Rightarrow>
          (case pf of
             None \<Rightarrow> Inr (session, [])
           | Some p \<Rightarrow>
               if InState p YCKParticipantStateCalled
               then bindR (SetState f YCKParticipantStateIdle ps) (\<lambda>ps1.
                    bindR (SetEvent f YCKParticipantEventBusy ps1) (\<lambda>ps2.
                    Inr (session\<lparr>Participants := ps2\<rparr>, [])))
               else Inr (session, []))
      | YCKCallSignalTypeMemberOp \<Rightarrow>
          (let session1 = (if Mode session = YCKCallModeOneToOne
                           then session\<lparr>Mode := YCKCallModeMultiple\<rparr> else session)
           in bindR (memberOp mar (Sid session1) signal ps) (\<lambda>(ps1, out).
                Inr (session1\<lparr>Participants := ps1\<rparr>, out)))
      | _ \<Rightarrow> Inr (session, []))"

text \<open>
  The fan-out (lines 453 to 474): one table from the decimal uid of every participant to
  its state and event, then one MemberState signal per participant.
\<close>

definition memberStates :: "participants \<Rightarrow> string \<rightharpoonup> ParticipantState \<times> ParticipantEvent" where
  "memberStates ps =
     fold (\<lambda>(u, p) tbl. tbl(FormatUint (Uid p) \<mapsto> (State p, Event p))) ps Map.empty"

definition memberStateSignal :: "Session \<Rightarrow> Participant \<Rightarrow> Signal" where
  "memberStateSignal session p =
     (NewSignal YCKCallSignalTypeMemberState SessionManagerUserId (Uid p) (Sid session))
       \<lparr>Info := [''state'' \<mapsto> JMemberStates (memberStates (Participants session))]\<rparr>"

definition fanout :: "(Signal \<Rightarrow> bytes option) \<Rightarrow> Session \<Rightarrow> Message list" where
  "fanout mar session =
     concat (map (\<lambda>(u, p). send mar (memberStateSignal session p) (Uid p))
                 (Participants session))"

text \<open>
  The multi-party branch (lines 306 to 475): the mode check, the promotion from
  Undecided, the switch, the fan-out.
\<close>

definition promote :: "Session \<Rightarrow> Session" where
  "promote session =
     (if Mode session = YCKCallModeUndecided
      then session\<lparr>Mode := YCKCallModeMultiple\<rparr> else session)"

definition handleMultiple ::
  "(Signal \<Rightarrow> bytes option) \<Rightarrow> Session \<Rightarrow> Signal \<Rightarrow> failure + Session \<times> Message list" where
  "handleMultiple mar session signal =
     (if Mode session = YCKCallModeOneToOne \<and> Signal signal \<noteq> YCKCallSignalTypeMemberOp
      then Inr (session, [])
      else bindR (multipleSwitch mar (promote session) signal) (\<lambda>(session1, out).
             Inr (session1, out @ fanout mar session1)))"

text \<open>
  The Sid allocation loop (lines 198 to 203): draw until the value is not a key of the
  registry. \<open>None\<close>: the source ran out before the loop could leave.
\<close>

fun allocate :: "(uid \<rightharpoonup> Session) \<Rightarrow> uid list \<Rightarrow> (uid \<times> uid list) option" where
  "allocate ss [] = None"
| "allocate ss (r # rs) = (if ss r = None then Some (r, rs) else allocate ss rs)"

text \<open>
  \<^verbatim>\<open>handleMessageUserSignal\<close> from line 195 on, after deduplication and
  unmarshalling: the SidRequest arm, the two sanity checks, the routing by destination.
  The session the branch leaves is stored back under the key it was found at.
\<close>

definition handleSignal ::
  "(Signal \<Rightarrow> bytes option) \<Rightarrow> SessionManager \<Rightarrow> Signal
     \<Rightarrow> failure + SessionManager \<times> Message list" where
  "handleSignal mar sm signal =
     (if Signal signal = YCKCallSignalTypeSidRequest then
        (case allocate (sessions sm) (randSource sm) of
           None \<Rightarrow> Inl NoReturn
         | Some (sid, rest) \<Rightarrow>
             Inr (sm\<lparr>sessions := (sessions sm)(sid \<mapsto> NewSession sid), randSource := rest\<rparr>,
                  send mar (NewSignal YCKCallSignalTypeSidCreated SessionManagerUserId
                              (From signal) sid) (From signal)))
      else if SessionId signal = 0 then Inr (sm, [])
      else
        case sessions sm (SessionId signal) of
          None \<Rightarrow> Inr (sm, [])
        | Some session \<Rightarrow>
            bindR (if To signal \<noteq> SessionManagerUserId
                   then handleOneToOne mar session signal
                   else handleMultiple mar session signal) (\<lambda>(session1, out).
              Inr (sm\<lparr>sessions := (sessions sm)(SessionId signal \<mapsto> session1)\<rparr>, out)))"

text \<open>
  \<^verbatim>\<open>handleMessageUserSignal\<close> (lines 169 to 476): drop a payload the dedup cache
  holds, otherwise remember it, unmarshal it (an error returns) and handle the signal.
  \<open>unmar\<close> and \<open>mar\<close> are \<^verbatim>\<open>Signal.Unmarshal\<close> and \<^verbatim>\<open>Signal.Marshal\<close>, declared
  outside the two source files.
\<close>

definition handleMessageUserSignal ::
  "(bytes \<Rightarrow> Signal option) \<Rightarrow> (Signal \<Rightarrow> bytes option) \<Rightarrow> SessionManager \<Rightarrow> bytes
     \<Rightarrow> failure + SessionManager \<times> Message list" where
  "handleMessageUserSignal unmar mar sm payload =
     (if Contains (dedup sm) payload then Inr (sm, [])
      else
        let sm1 = sm\<lparr>dedup := Add (dedup sm) payload True\<rparr> in
        case unmar payload of
          None \<Rightarrow> Inr (sm1, [])
        | Some signal \<Rightarrow> handleSignal mar sm1 signal)"

text \<open>
  The event loop over a sequence of signaling payloads: each is handled in the state the
  previous one left; a panic ends the process.
\<close>

fun loop ::
  "(bytes \<Rightarrow> Signal option) \<Rightarrow> (Signal \<Rightarrow> bytes option) \<Rightarrow> SessionManager \<Rightarrow> bytes list
     \<Rightarrow> failure + SessionManager \<times> Message list" where
  "loop unmar mar sm [] = Inr (sm, [])"
| "loop unmar mar sm (p # ps) =
     bindR (handleMessageUserSignal unmar mar sm p) (\<lambda>(sm1, out1).
     bindR (loop unmar mar sm1 ps) (\<lambda>(sm2, out2). Inr (sm2, out1 @ out2)))"

section \<open>Uplink metrics: data model\<close>

text \<open>
  \<^verbatim>\<open>relay/metrics.go\<close>. \<^verbatim>\<open>int16\<close>, \<^verbatim>\<open>uint16\<close>, \<^verbatim>\<open>uint32\<close> and \<^verbatim>\<open>int64\<close> are
  words of their width, read with \<open>sint\<close> where Go compares or divides them as signed.
  The counters of Go type \<^verbatim>\<open>int\<close> stay far below any machine width (at most 120
  samples of at most 65535 bytes) and are integers; \<^verbatim>\<open>pos\<close> is never negative and is a
  natural number.
\<close>

definition StatBufferSize :: nat where
  "StatBufferSize = 120"

record UmsgStat =
  paired :: bool
  tid :: "8 word"
  tseq :: "16 word"
  bytes :: "16 word"
  timestamp :: "64 word"

record Metrics =
  stat :: "UmsgStat list"
  pos :: nat
  lastTimestamp :: "64 word"
  lastTimestampRTT :: "64 word"

text \<open>
  The fields of \<^verbatim>\<open>relay.Message\<close> that \<^verbatim>\<open>Process\<close> reads; \<open>NetTrafficSize\<close> is the
  value the method of that name returns. The three frame constants are declared outside
  the two source files and are parameters.
\<close>

record MediaMessage =
  Tid :: "8 word"
  Tseq :: "16 word"
  Timestamp :: "16 word"
  NetTrafficSize :: "16 word"

record FrameConstants =
  UdpMessageExtraTypeMetrix :: "8 word"
  YCKMetrixDataTypeUp :: "8 word"
  YCKMetrixDataTypeRTT :: "8 word"

definition NewMetrics :: "64 word \<Rightarrow> 64 word \<Rightarrow> Metrics" where
  "NewMetrics now1 now2 =
     \<lparr>stat = replicate StatBufferSize
               \<lparr>paired = False, tid = 0, tseq = 0, bytes = 0, timestamp = 0\<rparr>,
      pos = 0, lastTimestamp = now1, lastTimestampRTT = now2\<rparr>"

text \<open>The local variables of a window closure (lines 57 to 64).\<close>

record Window =
  minSeq :: "16 word"
  maxSeq :: "16 word"
  packetDup :: int
  accPairs :: int
  accBytes :: "32 word"
  accTimes :: "64 word"
  totalBytes :: int

definition emptyWindow :: Window where
  "emptyWindow =
     \<lparr>minSeq = 0, maxSeq = 0, packetDup = 0, accPairs = 0, accBytes = 0, accTimes = 0,
      totalBytes = 0\<rparr>"

section \<open>Uplink metrics: Process\<close>

text \<open>Lines 70 to 81: the running minimum and maximum of the sequence numbers.\<close>

definition seqStep :: "16 word \<Rightarrow> Window \<Rightarrow> Window" where
  "seqStep t w =
     (if minSeq w = 0 \<and> maxSeq w = 0 then w\<lparr>minSeq := t, maxSeq := t\<rparr>
      else
        let w1 = (if 0 < sint (t - maxSeq w) then w\<lparr>maxSeq := t\<rparr> else w)
        in if sint (t - minSeq w1) < 0 then w1\<lparr>minSeq := t\<rparr> else w1)"

text \<open>
  Lines 83 to 105: the inner loop over \<open>q\<close>, here over the indices it visits. \<open>u1\<close> is
  a copy of the sample, so \<^verbatim>\<open>u1.paired = true\<close> does not reach the buffer, and the
  loop leaves right after it.
\<close>

fun pairLoop :: "UmsgStat \<Rightarrow> nat list \<Rightarrow> UmsgStat list \<times> Window \<Rightarrow> UmsgStat list \<times> Window" where
  "pairLoop u1 [] sw = sw"
| "pairLoop u1 (q # qs) (st, w) =
     (if tseq u1 = tseq (st ! q) then
        (if \<not> paired u1 then
           (st[q := (st ! q)\<lparr>paired := True\<rparr>],
            w\<lparr>accPairs := accPairs w + 1,
              accBytes := accBytes w + ucast (bytes (st ! q)),
              accTimes := accTimes w + (timestamp (st ! q) - timestamp u1)\<rparr>)
         else if \<not> paired (st ! q) then
           pairLoop u1 qs (st[q := (st ! q)\<lparr>paired := True\<rparr>],
                           w\<lparr>packetDup := packetDup w + 1\<rparr>)
         else pairLoop u1 qs (st, w))
      else pairLoop u1 qs (st, w))"

text \<open>Lines 66 to 106: the body of the outer loop at index \<open>p\<close>, and the loop.\<close>

definition windowStep :: "nat \<Rightarrow> nat \<Rightarrow> UmsgStat list \<times> Window \<Rightarrow> UmsgStat list \<times> Window" where
  "windowStep n p sw =
     (case sw of (st, w) \<Rightarrow>
        let u1 = st ! p;
            w1 = w\<lparr>totalBytes := totalBytes w + uint (bytes u1)\<rparr>;
            w2 = seqStep (tseq u1) w1
        in pairLoop u1 [p + 1 ..< min (p + 10) n] (st, w2))"

definition windowLoop :: "nat \<Rightarrow> UmsgStat list \<Rightarrow> UmsgStat list \<times> Window" where
  "windowLoop n st = fold (windowStep n) [0 ..< n] (st, emptyWindow)"

text \<open>Lines 109 to 120: the results of the window.\<close>

definition packetRecv :: "nat \<Rightarrow> Window \<Rightarrow> int" where
  "packetRecv n w = int n - packetDup w"

definition totalTime :: "nat \<Rightarrow> UmsgStat list \<Rightarrow> 64 word" where
  "totalTime n st =
     word_of_int (sint (timestamp (st ! (n - 1)) - timestamp (st ! 0)) sdiv 1000000)"

definition packetShould :: "Window \<Rightarrow> 16 word" where
  "packetShould w =
     (let ps = 2 * (maxSeq w - minSeq w)
      in if sint ps < 0 \<or> (minSeq w = 0 \<and> maxSeq w = 0) then 0 else ps)"

definition bandwidth :: "Window \<Rightarrow> 64 word" where
  "bandwidth w =
     (if 0 < accPairs w \<and> 0 < sint (accTimes w)
      then word_of_int
             ((sint (8 * ucast (accBytes w) * 1000000000 :: 64 word) sdiv sint (accTimes w))
                sdiv 1024)
      else - 1)"

text \<open>\<^verbatim>\<open>binary.BigEndian.PutUint16\<close> and \<^verbatim>\<open>PutUint32\<close>.\<close>

definition be16 :: "16 word \<Rightarrow> 8 word list" where
  "be16 x = [ucast (drop_bit 8 x), ucast x]"

definition be32 :: "32 word \<Rightarrow> 8 word list" where
  "be32 x = [ucast (drop_bit 24 x), ucast (drop_bit 16 x), ucast (drop_bit 8 x), ucast x]"

text \<open>Lines 124 to 135 and 148 to 153: the two frames.\<close>

definition uplinkFrame ::
  "FrameConstants \<Rightarrow> MediaMessage \<Rightarrow> nat \<Rightarrow> UmsgStat list \<Rightarrow> Window \<Rightarrow> 8 word list" where
  "uplinkFrame k msg n st w =
     [UdpMessageExtraTypeMetrix k] @ be16 16 @ [YCKMetrixDataTypeUp k, Tid msg]
       @ be32 (word_of_int (totalBytes w))
       @ be16 (ucast (totalTime n st))
       @ be32 (ucast (bandwidth w))
       @ be16 (packetShould w)
       @ be16 (word_of_int (packetRecv n w))"

definition rttFrame :: "FrameConstants \<Rightarrow> MediaMessage \<Rightarrow> 8 word list" where
  "rttFrame k msg =
     [UdpMessageExtraTypeMetrix k] @ be16 4 @ [YCKMetrixDataTypeRTT k, Tid msg]
       @ be16 (Timestamp msg)"

text \<open>Lines 138 to 145: the carry-over, which runs only when more than \<open>reuse\<close> samples are buffered.\<close>

definition reuse :: nat where
  "reuse = 20"

definition carryOver :: "nat \<Rightarrow> UmsgStat list \<Rightarrow> UmsgStat list" where
  "carryOver n st =
     fold (\<lambda>i s. s[i := (s ! (n - reuse + i))\<lparr>paired := False\<rparr>]) [0 ..< reuse] st"

text \<open>The condition of line 55, on the state before the call.\<close>

definition closesWindow :: "Metrics \<Rightarrow> 64 word \<Rightarrow> bool" where
  "closesWindow m ts =
     (StatBufferSize \<le> pos m + 1 \<or> 1000000000 < sint (ts - lastTimestamp m))"

text \<open>
  \<^verbatim>\<open>Process\<close> (lines 44 to 161). The buffer is a Go array of 120 samples: writing at
  an index of 120 or more panics. The result is the state left, \<^verbatim>\<open>ok\<close> and the frame.
\<close>

definition Process ::
  "FrameConstants \<Rightarrow> Metrics \<Rightarrow> MediaMessage \<Rightarrow> 64 word
     \<Rightarrow> failure + Metrics \<times> bool \<times> 8 word list option" where
  "Process k m msg ts =
     (if StatBufferSize \<le> pos m then Inl IndexOutOfRange
      else
        let st1 = (stat m)[pos m :=
                     \<lparr>paired = False, tid = Tid msg, tseq = Tseq msg,
                      bytes = NetTrafficSize msg, timestamp = ts\<rparr>];
            n = pos m + 1
        in if closesWindow m ts then
             (case windowLoop n st1 of (st2, w) \<Rightarrow>
                let data = (if 0 < sint (packetShould w)
                            then Some (uplinkFrame k msg n st2 w) else None)
                in if reuse < n
                   then Inr (m\<lparr>stat := carryOver n st2, pos := reuse, lastTimestamp := ts\<rparr>,
                             data \<noteq> None, data)
                   else Inr (m\<lparr>stat := st2, pos := n, lastTimestamp := ts\<rparr>,
                             data \<noteq> None, data))
           else if 100000000 < sint (ts - lastTimestampRTT m) then
             Inr (m\<lparr>stat := st1, pos := n, lastTimestampRTT := ts\<rparr>,
                  True, Some (rttFrame k msg))
           else Inr (m\<lparr>stat := st1, pos := n\<rparr>, False, None))"

text \<open>A sequence of calls, each on the state the previous one left.\<close>

fun feed ::
  "FrameConstants \<Rightarrow> Metrics \<Rightarrow> (MediaMessage \<times> 64 word) list \<Rightarrow> failure + Metrics" where
  "feed k m [] = Inr m"
| "feed k m ((msg, ts) # cs) = bindR (Process k m msg ts) (\<lambda>(m1, ok, data). feed k m1 cs)"

section \<open>The mode order and the 1-1 guards\<close>

text \<open>
  The partial order on modes that the spec states:
  Undecided below OneToOne and Multiple, OneToOne below Multiple.
\<close>

fun modeLe :: "CallMode \<Rightarrow> CallMode \<Rightarrow> bool" where
  "modeLe YCKCallModeUndecided m = True"
| "modeLe YCKCallModeOneToOne m = (m \<noteq> YCKCallModeUndecided)"
| "modeLe YCKCallModeMultiple m = (m = YCKCallModeMultiple)"

text \<open>
  The guard column of the 1-1 transition table, read on the originator as the switch finds
  it: an absent originator is created Idle by an Invite and passes no other guard; a
  signal kind outside the table has no guard to pass.
\<close>

fun guard :: "Participant option \<Rightarrow> SignalType \<Rightarrow> bool" where
  "guard None YCKCallSignalTypeInvite = True"
| "guard (Some p) YCKCallSignalTypeInvite = (State p = YCKParticipantStateIdle)"
| "guard (Some p) YCKCallSignalTypeCancel =
     (State p = YCKParticipantStateCalling \<or> State p = YCKParticipantStateIncall)"
| "guard (Some p) YCKCallSignalTypeAccept = (State p = YCKParticipantStateCalled)"
| "guard (Some p) YCKCallSignalTypeReject = (State p = YCKParticipantStateCalled)"
| "guard (Some p) YCKCallSignalTypeBusy = (State p = YCKParticipantStateCalled)"
| "guard (Some p) YCKCallSignalTypeEnd = True"
| "guard pf k = False"

section \<open>Example inputs of the session manager\<close>

text \<open>
  A marshaller that never fails (kind, source and destination, a byte each), eight
  signals, and an unmarshaller that decodes eight one-byte payloads to them; the registry
  with the one fresh session 7, the same registry with a random source that yields 8, and
  the registry after the Invite from 42 to 77.
\<close>

fun kindTag :: "SignalType \<Rightarrow> 8 word" where
  "kindTag YCKCallSignalTypeSidRequest = 1"
| "kindTag YCKCallSignalTypeSidCreated = 2"
| "kindTag YCKCallSignalTypeInvite = 3"
| "kindTag YCKCallSignalTypeCancel = 4"
| "kindTag YCKCallSignalTypeAccept = 5"
| "kindTag YCKCallSignalTypeReject = 6"
| "kindTag YCKCallSignalTypeBusy = 7"
| "kindTag YCKCallSignalTypeRing = 8"
| "kindTag YCKCallSignalTypeEnd = 9"
| "kindTag YCKCallSignalTypeMemberOp = 10"
| "kindTag YCKCallSignalTypeMemberState = 11"
| "kindTag (YCKCallSignalTypeOther n) = 0"

definition exMarshal :: "Signal \<Rightarrow> bytes option" where
  "exMarshal s = Some [kindTag (Signal s), ucast (From s), ucast (To s)]"

definition exSidRequest :: Signal where
  "exSidRequest = NewSignal YCKCallSignalTypeSidRequest 42 SessionManagerUserId 0"

definition exInvite :: Signal where
  "exInvite = NewSignal YCKCallSignalTypeInvite 42 77 7"

definition exCancel :: Signal where
  "exCancel = NewSignal YCKCallSignalTypeCancel 42 99 7"

definition exAccept :: Signal where
  "exAccept = NewSignal YCKCallSignalTypeAccept 77 42 7"

definition exInviteSM :: Signal where
  "exInviteSM = NewSignal YCKCallSignalTypeInvite 42 SessionManagerUserId 7"

definition exMemberOp :: Signal where
  "exMemberOp =
     (NewSignal YCKCallSignalTypeMemberOp 42 SessionManagerUserId 7)
       \<lparr>Info := [''op'' \<mapsto> JString ''invite'', ''members'' \<mapsto> JArray [JString ''x'']]\<rparr>"

definition exInviteAbsent :: Signal where
  "exInviteAbsent = NewSignal YCKCallSignalTypeInvite 42 99 7"

definition exSidRequestForSession :: Signal where
  "exSidRequestForSession = NewSignal YCKCallSignalTypeSidRequest 42 SessionManagerUserId 7"

definition exUnmarshal :: "bytes \<Rightarrow> Signal option" where
  "exUnmarshal b =
     (if b = [1] then Some exSidRequest
      else if b = [2] then Some exInvite
      else if b = [3] then Some exCancel
      else if b = [4] then Some exAccept
      else if b = [5] then Some exInviteSM
      else if b = [6] then Some exMemberOp
      else if b = [7] then Some exInviteAbsent
      else if b = [10] then Some exSidRequestForSession
      else None)"

definition exManager :: SessionManager where
  "exManager = \<lparr>sessions = [7 \<mapsto> NewSession 7], dedup = NewLRU 100, randSource = []\<rparr>"

definition exManagerRand :: SessionManager where
  "exManagerRand = exManager\<lparr>randSource := [8]\<rparr>"

definition exSessionInvited :: Session where
  "exSessionInvited =
     \<lparr>Sid = 7, Mode = YCKCallModeOneToOne,
      Participants =
        [(42, \<lparr>Uid = 42, State = YCKParticipantStateCalling,
               Event = YCKParticipantEventInvite\<rparr>),
         (77, \<lparr>Uid = 77, State = YCKParticipantStateCalled,
               Event = YCKParticipantEventRecvInvite\<rparr>)]\<rparr>"

definition exManagerInvited :: SessionManager where
  "exManagerInvited =
     \<lparr>sessions = [7 \<mapsto> exSessionInvited],
      dedup = \<lparr>capacity = 100, entries = [([2], True)]\<rparr>,
      randSource = []\<rparr>"

section \<open>Sequence arithmetic as the spec words it\<close>

text \<open>
  The spec's reading of the window's sequence arithmetic, on integers with the wrap-around
  written out: \<open>wrap16\<close> is the value of an integer as a signed 16-bit number; the sign
  of the wrapped difference orders two sequence numbers; the pair \<open>(0, 0)\<close> means
  uninitialised; \<open>packetShould\<close> is twice the wrapped difference, wrapped again, and 0
  when that is negative or the pair is uninitialised.
\<close>

definition wrap16 :: "int \<Rightarrow> int" where
  "wrap16 x = (x + 32768) mod 65536 - 32768"

definition specSeqStep :: "int \<Rightarrow> int \<times> int \<Rightarrow> int \<times> int" where
  "specSeqStep t mm =
     (case mm of (mn, mx) \<Rightarrow>
        if mn = 0 \<and> mx = 0 then (t, t)
        else (if wrap16 (t - mn) < 0 then t else mn, if 0 < wrap16 (t - mx) then t else mx))"

definition specMinMax :: "int list \<Rightarrow> int \<times> int" where
  "specMinMax ts = fold specSeqStep ts (0, 0)"

definition specPacketShould :: "int \<times> int \<Rightarrow> int" where
  "specPacketShould mm =
     (case mm of (mn, mx) \<Rightarrow>
        let d = wrap16 (2 * wrap16 (mx - mn))
        in if d < 0 \<or> (mn = 0 \<and> mx = 0) then 0 else d)"

section \<open>Example inputs of the metrics engine\<close>

text \<open>
  Frame constants, a media message, and the buffer after 25 all-zero samples that closed
  no window.
\<close>

definition exFrameConstants :: FrameConstants where
  "exFrameConstants =
     \<lparr>UdpMessageExtraTypeMetrix = 1, YCKMetrixDataTypeUp = 2, YCKMetrixDataTypeRTT = 3\<rparr>"

definition exMedia :: MediaMessage where
  "exMedia = \<lparr>Tid = 7, Tseq = 5, Timestamp = 0, NetTrafficSize = 200\<rparr>"

definition exMetrics :: Metrics where
  "exMetrics = (NewMetrics 0 0)\<lparr>pos := 25\<rparr>"

section \<open>Evaluating the handler\<close>

lemmas handler_defs =
  handleMessageUserSignal_def handleSignal_def handleOneToOne_def handleMultiple_def
  oneToOneSwitch_def multipleSwitch_def memberOp_def transition_def SetState_def
  SetEvent_def send_def fanout_def memberStateSignal_def promote_def bindR_def
  NewSignal_def NewSession_def NewParticipant_def NewMessage_def InState_def
  Contains_def Add_def NewLRU_def NewSessionManager_def SessionManagerUserId_def

lemmas example_defs =
  exMarshal_def exUnmarshal_def exSidRequest_def exInvite_def exCancel_def exAccept_def
  exInviteSM_def exMemberOp_def exManager_def exManagerInvited_def exSessionInvited_def
  exInviteAbsent_def exSidRequestForSession_def exManagerRand_def

section \<open>C2: a 1-1 signal whose peer is absent\<close>

text \<open>
  C2 says that the 1-1 branch creates the From and the To participant on demand for every
  kind of signal and never crashes, also when the guard on From holds and To is not yet
  in the session. The code creates participants in the Invite arm only. Run from the
  initial state: a SidRequest allocates session 7, an Invite from 42 to 77 makes 42
  Calling, and a Cancel from 42 to 99 passes the guard on 42 and then calls
  \<^verbatim>\<open>pt.SetState\<close> on the nil pointer for 99: the handler panics.
\<close>

theorem C2_cancel_to_absent_peer_panics:
  "loop exUnmarshal exMarshal (NewSessionManager [7]) [[1], [2], [3]] = Inl NilDereference"
  by (simp add: handler_defs example_defs)


section \<open>C10: a MemberOp whose members are not numbers\<close>

text \<open>
  Whenever the multi-party branch passes the mode check and returns, its output ends with
  the fan-out, and the fan-out addresses one message to every participant when
  marshalling succeeds.
\<close>

lemma handleMultiple_fanout:
  assumes "handleMultiple mar s sg = Inr (s', out)"
    and "\<not> (Mode s = YCKCallModeOneToOne \<and> Signal sg \<noteq> YCKCallSignalTypeMemberOp)"
  shows "\<exists>out1. out = out1 @ fanout mar s'"
  using assms
  by (auto simp: handleMultiple_def bindR_def split: sum.splits prod.splits)

lemma fanout_recipients:
  assumes "\<And>s. mar s \<noteq> None"
  shows "map MsgTo (fanout mar session) = map (\<lambda>(u, p). Uid p) (Participants session)"
proof -
  have "map MsgTo (concat (map (\<lambda>(u, p). send mar (f p) (Uid p)) ps))
          = map (\<lambda>(u, p). Uid p) ps" for f and ps :: participants
  proof (induction ps)
    case Nil
    show ?case by simp
  next
    case (Cons a ps)
    obtain u p where a: "a = (u, p)" by (cases a)
    obtain pl where "mar (f p) = Some pl" using assms [of "f p"] by auto
    with Cons a show ?case by (simp add: send_def NewMessage_def)
  qed
  then show ?thesis by (simp add: fanout_def)
qed

text \<open>
  C10 says that every signal addressed to the session manager that passes the mode check
  is followed by the MemberState fan-out, one signal per participant, also for a malformed
  MemberOp. A MemberOp with \<^verbatim>\<open>op = "invite"\<close> and \<^verbatim>\<open>members = ["x"]\<close> passes the two
  checked type assertions and reaches the unchecked \<^verbatim>\<open>value.(json.Number)\<close>, which
  panics on the string: the handler ends before the fan-out. Run from the initial state,
  after the SidRequest that allocates session 7.
\<close>

theorem C10_member_op_string_member_panics:
  "loop exUnmarshal exMarshal (NewSessionManager [7]) [[1], [6]] = Inl InterfaceConversion"
  by (simp add: handler_defs example_defs)

section \<open>C1: a 1-1 signal whose guard fails\<close>

text \<open>
  C1 as stated (a 1-1-routed signal whose guard fails leaves every participant as it was
  and emits no outbound message) fails on the forward: the signal is sent on to \<open>To\<close>
  before the switch looks at any guard. An Accept from 77 to 42 in the fresh session 7
  fails its guard (77 is not in the session) and is still forwarded to 42.
\<close>

theorem C1_counterexample:
  "\<not> guard (map_of (Participants (NewSession 7)) (From exAccept)) (Signal exAccept) \<and>
   map_sum id snd (handleMessageUserSignal exUnmarshal exMarshal exManager [4])
     = Inr [NewMessage UdpMessageTypeUserSignal SessionManagerUserId 42 [5, 77, 42]]"
  by (simp add: handler_defs example_defs)

lemma switch_guard_fails:
  assumes "\<not> guard (map_of ps (From sg)) (Signal sg)"
  shows "oneToOneSwitch sg ps =
           Inr (if Signal sg = YCKCallSignalTypeInvite \<and> map_of ps (To sg) = None
                then AList.update (To sg) (NewParticipant (To sg)) ps else ps)"
  using assms
  by (cases "Signal sg"; cases "map_of ps (From sg)")
     (auto simp: oneToOneSwitch_def Let_def InState_def)

lemma update_absent_keeps:
  "map_of ps t = None \<Longrightarrow> map_of ps u = Some q \<Longrightarrow> map_of (AList.update t v ps) u = Some q"
  by (auto simp: update_conv')

text \<open>
  C1, amended: a 1-1-routed signal (not a SidRequest, nonzero session id, \<open>To\<close> not the
  session manager, the session present and not Multiple) whose guard fails is handled
  without a crash; the session's mode becomes OneToOne; the one outbound message is the
  forward of the signal to \<open>To\<close> (none when marshalling it fails); every participant of
  the session keeps its State and Event; and the participant table is unchanged, but for
  a forwarded Invite whose \<open>To\<close> is absent: that adds \<open>To\<close> as a fresh participant
  (Idle, no event) and nothing else.
\<close>

theorem C1_guard_fails_forward_only:
  assumes "\<not> Contains (dedup sm) payload" and "unmar payload = Some sg"
    and "Signal sg \<noteq> YCKCallSignalTypeSidRequest" and "SessionId sg \<noteq> 0"
    and "To sg \<noteq> SessionManagerUserId"
    and "sessions sm (SessionId sg) = Some s" and "Mode s \<noteq> YCKCallModeMultiple"
    and "\<not> guard (map_of (Participants s) (From sg)) (Signal sg)"
  shows "\<exists>ps'. handleMessageUserSignal unmar mar sm payload =
            Inr (sm\<lparr>sessions := (sessions sm)(SessionId sg \<mapsto>
                       s\<lparr>Mode := YCKCallModeOneToOne, Participants := ps'\<rparr>),
                     dedup := Add (dedup sm) payload True\<rparr>,
                 send mar sg (To sg))
          \<and> ps' = (if mar sg \<noteq> None \<and> Signal sg = YCKCallSignalTypeInvite
                        \<and> map_of (Participants s) (To sg) = None
                     then AList.update (To sg) (NewParticipant (To sg)) (Participants s)
                     else Participants s)
          \<and> (\<forall>u q. map_of (Participants s) u = Some q \<longrightarrow> map_of ps' u = Some q)
          \<and> (Signal sg \<noteq> YCKCallSignalTypeInvite \<longrightarrow> ps' = Participants s)"
proof -
  let ?ps = "if mar sg \<noteq> None \<and> Signal sg = YCKCallSignalTypeInvite
                        \<and> map_of (Participants s) (To sg) = None
                     then AList.update (To sg) (NewParticipant (To sg)) (Participants s)
                     else Participants s"
  note sw = switch_guard_fails [OF assms(8)]
  have run: "handleMessageUserSignal unmar mar sm payload =
            Inr (sm\<lparr>sessions := (sessions sm)(SessionId sg \<mapsto>
                       s\<lparr>Mode := YCKCallModeOneToOne, Participants := ?ps\<rparr>),
                     dedup := Add (dedup sm) payload True\<rparr>,
                 send mar sg (To sg))"
  proof (cases "mar sg")
    case None
    with assms show ?thesis
      by (simp add: handleMessageUserSignal_def handleSignal_def handleOneToOne_def
          send_def bindR_def)
  next
    case (Some pl)
    with assms sw show ?thesis
      by (simp add: handleMessageUserSignal_def handleSignal_def handleOneToOne_def
          send_def bindR_def)
  qed
  have keep: "\<forall>u q. map_of (Participants s) u = Some q \<longrightarrow> map_of ?ps u = Some q"
    by (simp add: update_absent_keeps)
  have same: "Signal sg \<noteq> YCKCallSignalTypeInvite \<longrightarrow> ?ps = Participants s"
    by simp
  from run keep same show ?thesis by blast
qed

theorem C1_guard_fails_forward_only_witness:
  "\<not> Contains (dedup exManagerInvited) [7] \<and> exUnmarshal [7] = Some exInviteAbsent
   \<and> Signal exInviteAbsent \<noteq> YCKCallSignalTypeSidRequest \<and> SessionId exInviteAbsent \<noteq> 0
   \<and> To exInviteAbsent \<noteq> SessionManagerUserId
   \<and> sessions exManagerInvited (SessionId exInviteAbsent) = Some exSessionInvited
   \<and> Mode exSessionInvited \<noteq> YCKCallModeMultiple
   \<and> \<not> guard (map_of (Participants exSessionInvited) (From exInviteAbsent))
         (Signal exInviteAbsent)
   \<and> handleMessageUserSignal exUnmarshal exMarshal exManagerInvited [7] =
       Inr (exManagerInvited\<lparr>sessions := (sessions exManagerInvited)(7 \<mapsto>
               exSessionInvited\<lparr>Participants :=
                 [(42, \<lparr>Uid = 42, State = YCKParticipantStateCalling,
                        Event = YCKParticipantEventInvite\<rparr>),
                  (77, \<lparr>Uid = 77, State = YCKParticipantStateCalled,
                        Event = YCKParticipantEventRecvInvite\<rparr>),
                  (99, \<lparr>Uid = 99, State = YCKParticipantStateIdle,
                        Event = YCKParticipantEventNone\<rparr>)]\<rparr>),
              dedup := Add (dedup exManagerInvited) [7] True\<rparr>,
            [NewMessage UdpMessageTypeUserSignal SessionManagerUserId 99 [3, 42, 99]])"
proof -
  have h: "\<not> Contains (dedup exManagerInvited) [7]" "exUnmarshal [7] = Some exInviteAbsent"
    "Signal exInviteAbsent \<noteq> YCKCallSignalTypeSidRequest" "SessionId exInviteAbsent \<noteq> 0"
    "To exInviteAbsent \<noteq> SessionManagerUserId"
    "sessions exManagerInvited (SessionId exInviteAbsent) = Some exSessionInvited"
    "Mode exSessionInvited \<noteq> YCKCallModeMultiple"
    "\<not> guard (map_of (Participants exSessionInvited) (From exInviteAbsent))
         (Signal exInviteAbsent)"
    by (simp_all add: handler_defs example_defs)
  have e: "exMarshal exInviteAbsent \<noteq> None"
    "Signal exInviteAbsent = YCKCallSignalTypeInvite"
    "map_of (Participants exSessionInvited) (To exInviteAbsent) = None"
    "AList.update (To exInviteAbsent) (NewParticipant (To exInviteAbsent))
       (Participants exSessionInvited) =
     [(42, \<lparr>Uid = 42, State = YCKParticipantStateCalling,
            Event = YCKParticipantEventInvite\<rparr>),
      (77, \<lparr>Uid = 77, State = YCKParticipantStateCalled,
            Event = YCKParticipantEventRecvInvite\<rparr>),
      (99, \<lparr>Uid = 99, State = YCKParticipantStateIdle,
            Event = YCKParticipantEventNone\<rparr>)]"
    "SessionId exInviteAbsent = 7"
    "exSessionInvited\<lparr>Mode := YCKCallModeOneToOne\<rparr> = exSessionInvited"
    "send exMarshal exInviteAbsent (To exInviteAbsent) =
       [NewMessage UdpMessageTypeUserSignal SessionManagerUserId 99 [3, 42, 99]]"
    by (simp_all add: handler_defs example_defs)
  from C1_guard_fails_forward_only [where sm = exManagerInvited and payload = "[7]"
      and unmar = exUnmarshal and sg = exInviteAbsent and s = exSessionInvited
      and mar = exMarshal, OF h]
  obtain ps' where
    r: "handleMessageUserSignal exUnmarshal exMarshal exManagerInvited [7] =
            Inr (exManagerInvited\<lparr>sessions := (sessions exManagerInvited)
                     (SessionId exInviteAbsent \<mapsto>
                       exSessionInvited\<lparr>Mode := YCKCallModeOneToOne, Participants := ps'\<rparr>),
                     dedup := Add (dedup exManagerInvited) [7] True\<rparr>,
                 send exMarshal exInviteAbsent (To exInviteAbsent))"
    and t: "ps' = (if exMarshal exInviteAbsent \<noteq> None
                        \<and> Signal exInviteAbsent = YCKCallSignalTypeInvite
                        \<and> map_of (Participants exSessionInvited) (To exInviteAbsent) = None
                     then AList.update (To exInviteAbsent) (NewParticipant (To exInviteAbsent))
                            (Participants exSessionInvited)
                     else Participants exSessionInvited)"
    by blast
  from t e(1-4) have "ps' =
     [(42, \<lparr>Uid = 42, State = YCKParticipantStateCalling,
            Event = YCKParticipantEventInvite\<rparr>),
      (77, \<lparr>Uid = 77, State = YCKParticipantStateCalled,
            Event = YCKParticipantEventRecvInvite\<rparr>),
      (99, \<lparr>Uid = 99, State = YCKParticipantStateIdle,
            Event = YCKParticipantEventNone\<rparr>)]"
    by (simp only: simp_thms if_True)
  with r e(5,7) have "handleMessageUserSignal exUnmarshal exMarshal exManagerInvited [7] =
       Inr (exManagerInvited\<lparr>sessions := (sessions exManagerInvited)(7 \<mapsto>
               exSessionInvited\<lparr>Participants :=
                 [(42, \<lparr>Uid = 42, State = YCKParticipantStateCalling,
                        Event = YCKParticipantEventInvite\<rparr>),
                  (77, \<lparr>Uid = 77, State = YCKParticipantStateCalled,
                        Event = YCKParticipantEventRecvInvite\<rparr>),
                  (99, \<lparr>Uid = 99, State = YCKParticipantStateIdle,
                        Event = YCKParticipantEventNone\<rparr>)]\<rparr>),
              dedup := Add (dedup exManagerInvited) [7] True\<rparr>,
            [NewMessage UdpMessageTypeUserSignal SessionManagerUserId 99 [3, 42, 99]])"
    by (simp add: exSessionInvited_def)
  with h show ?thesis by blast
qed

section \<open>C8: SidRequest\<close>

lemma allocate_fresh:
  "\<exists>r\<in>set rs. ss r = None \<Longrightarrow> \<exists>sid rest. allocate ss rs = Some (sid, rest) \<and> ss sid = None"
  by (induction rs) auto

text \<open>
  C8: a SidRequest that passes the dedup cache, when the random source yields a value that
  is not in the registry and the reply marshals, allocates a Sid absent from the registry,
  stores a session with that Sid, mode Undecided and no participants under it, changes no
  other registry entry, and emits exactly one message: the SidCreated signal carrying the
  new Sid, addressed to the sender.
\<close>

theorem C8_sid_request:
  assumes "\<not> Contains (dedup sm) payload" and "unmar payload = Some sg"
    and "Signal sg = YCKCallSignalTypeSidRequest"
    and "\<exists>r\<in>set (randSource sm). sessions sm r = None"
    and "\<forall>sid. mar (NewSignal YCKCallSignalTypeSidCreated SessionManagerUserId (From sg) sid) \<noteq> None"
  shows "\<exists>sid rest pl.
           handleMessageUserSignal unmar mar sm payload =
             Inr (sm\<lparr>sessions := (sessions sm)(sid \<mapsto>
                        \<lparr>Sid = sid, Mode = YCKCallModeUndecided, Participants = []\<rparr>),
                      dedup := Add (dedup sm) payload True, randSource := rest\<rparr>,
                  [\<lparr>MsgType = UdpMessageTypeUserSignal, MsgFrom = SessionManagerUserId,
                    MsgTo = From sg, Payload = pl\<rparr>])
           \<and> sessions sm sid = None
           \<and> mar (NewSignal YCKCallSignalTypeSidCreated SessionManagerUserId (From sg) sid)
               = Some pl"
proof -
  obtain sid rest where al: "allocate (sessions sm) (randSource sm) = Some (sid, rest)"
    and fresh: "sessions sm sid = None"
    using allocate_fresh [OF assms(4)] by blast
  obtain pl where pl:
    "mar (NewSignal YCKCallSignalTypeSidCreated SessionManagerUserId (From sg) sid) = Some pl"
    using assms(5) by blast
  from assms(1-3) al pl have "handleMessageUserSignal unmar mar sm payload =
             Inr (sm\<lparr>sessions := (sessions sm)(sid \<mapsto>
                        \<lparr>Sid = sid, Mode = YCKCallModeUndecided, Participants = []\<rparr>),
                      dedup := Add (dedup sm) payload True, randSource := rest\<rparr>,
                  [\<lparr>MsgType = UdpMessageTypeUserSignal, MsgFrom = SessionManagerUserId,
                    MsgTo = From sg, Payload = pl\<rparr>])"
    by (simp add: handleMessageUserSignal_def handleSignal_def send_def NewSession_def
        NewMessage_def)
  with fresh pl show ?thesis by blast
qed

theorem C8_sid_request_witness:
  "\<not> Contains (dedup (NewSessionManager [7])) [1] \<and> exUnmarshal [1] = Some exSidRequest
   \<and> Signal exSidRequest = YCKCallSignalTypeSidRequest
   \<and> (\<exists>r\<in>set (randSource (NewSessionManager [7])). sessions (NewSessionManager [7]) r = None)
   \<and> (\<forall>sid. exMarshal (NewSignal YCKCallSignalTypeSidCreated SessionManagerUserId
                 (From exSidRequest) sid) \<noteq> None)
   \<and> (\<exists>sid rest pl.
           handleMessageUserSignal exUnmarshal exMarshal (NewSessionManager [7]) [1] =
             Inr ((NewSessionManager [7])\<lparr>sessions := (sessions (NewSessionManager [7]))(sid \<mapsto>
                        \<lparr>Sid = sid, Mode = YCKCallModeUndecided, Participants = []\<rparr>),
                      dedup := Add (dedup (NewSessionManager [7])) [1] True,
                      randSource := rest\<rparr>,
                  [\<lparr>MsgType = UdpMessageTypeUserSignal, MsgFrom = SessionManagerUserId,
                    MsgTo = From exSidRequest, Payload = pl\<rparr>])
           \<and> sessions (NewSessionManager [7]) sid = None
           \<and> exMarshal (NewSignal YCKCallSignalTypeSidCreated SessionManagerUserId
                 (From exSidRequest) sid) = Some pl)"
proof -
  have h: "\<not> Contains (dedup (NewSessionManager [7])) [1]"
    "exUnmarshal [1] = Some exSidRequest"
    "Signal exSidRequest = YCKCallSignalTypeSidRequest"
    "\<exists>r\<in>set (randSource (NewSessionManager [7])). sessions (NewSessionManager [7]) r = None"
    "\<forall>sid. exMarshal (NewSignal YCKCallSignalTypeSidCreated SessionManagerUserId
                 (From exSidRequest) sid) \<noteq> None"
    by (simp_all add: handler_defs example_defs)
  from h C8_sid_request [where sm = "NewSessionManager [7]" and payload = "[1]"
      and unmar = exUnmarshal and sg = exSidRequest and mar = exMarshal]
  show ?thesis by blast
qed

section \<open>C4: a multi-party Invite is accepted by the session manager\<close>

lemma multi_invite_switch:
  assumes "Signal sg = YCKCallSignalTypeInvite"
    and "guard (map_of (Participants s) (From sg)) YCKCallSignalTypeInvite"
    and "mar (NewSignal YCKCallSignalTypeRing SessionManagerUserId (From sg) (Sid s)) = Some r"
    and "mar (NewSignal YCKCallSignalTypeAccept SessionManagerUserId (From sg) (Sid s)) = Some a"
  shows "\<exists>ps' p. multipleSwitch mar s sg =
           Inr (s\<lparr>Participants := ps'\<rparr>,
                [NewMessage UdpMessageTypeUserSignal SessionManagerUserId (From sg) r,
                 NewMessage UdpMessageTypeUserSignal SessionManagerUserId (From sg) a])
         \<and> map_of ps' (From sg) = Some p
         \<and> State p = YCKParticipantStateIncall \<and> Event p = YCKParticipantEventRecvAccept"
  using assms
  by (cases "map_of (Participants s) (From sg)")
     (auto simp: multipleSwitch_def Let_def InState_def NewParticipant_def SetState_def
        SetEvent_def bindR_def send_def update_conv')

text \<open>
  C4: an Invite addressed to the session manager that passes the dedup cache, for an
  existing session in the multi-party branch (its mode is not OneToOne), whose originator
  is absent (and is created) or Idle, when Ring and Accept marshal: the handler emits the
  Ring and then the Accept, both addressed to the originator, before the fan-out, and the
  originator is left Incall with event RecvAccept.
\<close>

theorem C4_multi_invite_auto_accept:
  assumes "\<not> Contains (dedup sm) payload" and "unmar payload = Some sg"
    and "Signal sg = YCKCallSignalTypeInvite" and "SessionId sg \<noteq> 0"
    and "To sg = SessionManagerUserId"
    and "sessions sm (SessionId sg) = Some s" and "Mode s \<noteq> YCKCallModeOneToOne"
    and "guard (map_of (Participants s) (From sg)) YCKCallSignalTypeInvite"
    and "mar (NewSignal YCKCallSignalTypeRing SessionManagerUserId (From sg) (Sid s)) = Some r"
    and "mar (NewSignal YCKCallSignalTypeAccept SessionManagerUserId (From sg) (Sid s)) = Some a"
  shows "\<exists>sm' s' p.
           handleMessageUserSignal unmar mar sm payload =
             Inr (sm', NewMessage UdpMessageTypeUserSignal SessionManagerUserId (From sg) r
                     # NewMessage UdpMessageTypeUserSignal SessionManagerUserId (From sg) a
                     # fanout mar s')
           \<and> sessions sm' (SessionId sg) = Some s'
           \<and> map_of (Participants s') (From sg) = Some p
           \<and> State p = YCKParticipantStateIncall
           \<and> Event p = YCKParticipantEventRecvAccept"
proof -
  have g: "guard (map_of (Participants (promote s)) (From sg)) YCKCallSignalTypeInvite"
    using assms(8) by (simp add: promote_def)
  have sid: "Sid (promote s) = Sid s" by (simp add: promote_def)
  obtain ps' p where sw: "multipleSwitch mar (promote s) sg =
           Inr ((promote s)\<lparr>Participants := ps'\<rparr>,
                [NewMessage UdpMessageTypeUserSignal SessionManagerUserId (From sg) r,
                 NewMessage UdpMessageTypeUserSignal SessionManagerUserId (From sg) a])"
    and p: "map_of ps' (From sg) = Some p" "State p = YCKParticipantStateIncall"
      "Event p = YCKParticipantEventRecvAccept"
    using multi_invite_switch [OF assms(3) g, of mar r a] assms(9,10) sid by auto
  from assms(1-7) sw have "handleMessageUserSignal unmar mar sm payload =
      Inr (sm\<lparr>sessions := (sessions sm)(SessionId sg \<mapsto> (promote s)\<lparr>Participants := ps'\<rparr>),
              dedup := Add (dedup sm) payload True\<rparr>,
           NewMessage UdpMessageTypeUserSignal SessionManagerUserId (From sg) r
             # NewMessage UdpMessageTypeUserSignal SessionManagerUserId (From sg) a
             # fanout mar ((promote s)\<lparr>Participants := ps'\<rparr>))"
    by (simp add: handleMessageUserSignal_def handleSignal_def handleMultiple_def bindR_def)
  with p show ?thesis by force
qed

theorem C4_multi_invite_auto_accept_witness:
  "\<not> Contains (dedup exManager) [5] \<and> exUnmarshal [5] = Some exInviteSM
   \<and> Signal exInviteSM = YCKCallSignalTypeInvite \<and> SessionId exInviteSM \<noteq> 0
   \<and> To exInviteSM = SessionManagerUserId
   \<and> sessions exManager (SessionId exInviteSM) = Some (NewSession 7)
   \<and> Mode (NewSession 7) \<noteq> YCKCallModeOneToOne
   \<and> guard (map_of (Participants (NewSession 7)) (From exInviteSM)) YCKCallSignalTypeInvite
   \<and> exMarshal (NewSignal YCKCallSignalTypeRing SessionManagerUserId (From exInviteSM)
         (Sid (NewSession 7))) = Some [8, 255, 42]
   \<and> exMarshal (NewSignal YCKCallSignalTypeAccept SessionManagerUserId (From exInviteSM)
         (Sid (NewSession 7))) = Some [5, 255, 42]
   \<and> (\<exists>sm' s' p.
           handleMessageUserSignal exUnmarshal exMarshal exManager [5] =
             Inr (sm', NewMessage UdpMessageTypeUserSignal SessionManagerUserId
                         (From exInviteSM) [8, 255, 42]
                     # NewMessage UdpMessageTypeUserSignal SessionManagerUserId
                         (From exInviteSM) [5, 255, 42]
                     # fanout exMarshal s')
           \<and> sessions sm' (SessionId exInviteSM) = Some s'
           \<and> map_of (Participants s') (From exInviteSM) = Some p
           \<and> State p = YCKParticipantStateIncall
           \<and> Event p = YCKParticipantEventRecvAccept)"
proof -
  have h: "\<not> Contains (dedup exManager) [5]" "exUnmarshal [5] = Some exInviteSM"
    "Signal exInviteSM = YCKCallSignalTypeInvite" "SessionId exInviteSM \<noteq> 0"
    "To exInviteSM = SessionManagerUserId"
    "sessions exManager (SessionId exInviteSM) = Some (NewSession 7)"
    "Mode (NewSession 7) \<noteq> YCKCallModeOneToOne"
    "guard (map_of (Participants (NewSession 7)) (From exInviteSM)) YCKCallSignalTypeInvite"
    "exMarshal (NewSignal YCKCallSignalTypeRing SessionManagerUserId (From exInviteSM)
         (Sid (NewSession 7))) = Some [8, 255, 42]"
    "exMarshal (NewSignal YCKCallSignalTypeAccept SessionManagerUserId (From exInviteSM)
         (Sid (NewSession 7))) = Some [5, 255, 42]"
    by (simp_all add: handler_defs example_defs)
  from h C4_multi_invite_auto_accept [where sm = exManager and payload = "[5]"
      and unmar = exUnmarshal and sg = exInviteSM and s = "NewSession 7" and mar = exMarshal
      and r = "[8, 255, 42]" and a = "[5, 255, 42]"]
  show ?thesis by blast
qed

section \<open>C5: the mode of a session never regresses\<close>

lemma modeLe_refl: "modeLe m m"
  by (cases m) auto

lemma modeLe_trans: "modeLe a b \<Longrightarrow> modeLe b c \<Longrightarrow> modeLe a c"
  by (cases a; cases b; cases c) auto

lemma modeLe_Multiple: "modeLe YCKCallModeMultiple m \<Longrightarrow> m = YCKCallModeMultiple"
  by simp

lemma allocate_Some: "allocate ss rs = Some (sid, rest) \<Longrightarrow> ss sid = None"
  by (induction rs) (auto split: if_splits)

lemma handleOneToOne_mode:
  "handleOneToOne mar s sg = Inr (s', out) \<Longrightarrow> modeLe (Mode s) (Mode s')"
  by (cases "Mode s")
     (auto simp: handleOneToOne_def Let_def bindR_def
           split: if_splits option.splits sum.splits)

lemma multipleSwitch_mode:
  "multipleSwitch mar s sg = Inr (s', out) \<Longrightarrow> modeLe (Mode s) (Mode s')"
  by (cases "Signal sg"; cases "Mode s")
     (auto simp: multipleSwitch_def Let_def bindR_def
           split: if_splits option.splits sum.splits prod.splits)

lemma handleMultiple_mode:
  assumes "handleMultiple mar s sg = Inr (s', out)"
  shows "modeLe (Mode s) (Mode s')"
proof (cases "Mode s = YCKCallModeOneToOne \<and> Signal sg \<noteq> YCKCallSignalTypeMemberOp")
  case True
  with assms show ?thesis by (auto simp: handleMultiple_def modeLe_refl)
next
  case False
  with assms obtain out1 where "multipleSwitch mar (promote s) sg = Inr (s', out1)"
    by (auto simp: handleMultiple_def bindR_def split: sum.splits prod.splits)
  then have "modeLe (Mode (promote s)) (Mode s')" by (rule multipleSwitch_mode)
  moreover have "modeLe (Mode s) (Mode (promote s))"
    by (cases "Mode s") (auto simp: promote_def)
  ultimately show ?thesis by (blast intro: modeLe_trans)
qed

lemma handleSignal_mode:
  assumes "handleSignal mar sm sg = Inr (sm', out)" and "sessions sm sid = Some s"
  shows "\<exists>s'. sessions sm' sid = Some s' \<and> modeLe (Mode s) (Mode s')"
proof (cases "Signal sg = YCKCallSignalTypeSidRequest")
  case True
  with assms(1) obtain sid' rest where al: "allocate (sessions sm) (randSource sm) = Some (sid', rest)"
    and sm': "sessions sm' = (sessions sm)(sid' \<mapsto> NewSession sid')"
    by (auto simp: handleSignal_def split: option.splits)
  from al have "sessions sm sid' = None" by (rule allocate_Some)
  with assms(2) have "sid \<noteq> sid'" by auto
  with sm' assms(2) show ?thesis by (auto simp: modeLe_refl)
next
  case notreq: False
  show ?thesis
  proof (cases "SessionId sg = 0 \<or> sessions sm (SessionId sg) = None")
    case True
    with notreq assms(1) have "sm' = sm"
      by (auto simp: handleSignal_def split: if_splits)
    with assms(2) show ?thesis by (auto simp: modeLe_refl)
  next
    case False
    then obtain t where t: "sessions sm (SessionId sg) = Some t" and nz: "SessionId sg \<noteq> 0"
      by auto
    with notreq assms(1) obtain t' where
      br: "(if To sg \<noteq> SessionManagerUserId then handleOneToOne mar t sg
            else handleMultiple mar t sg) = Inr (t', out)"
      and sm': "sessions sm' = (sessions sm)(SessionId sg \<mapsto> t')"
      by (auto simp: handleSignal_def bindR_def split: sum.splits prod.splits)
    from br have le: "modeLe (Mode t) (Mode t')"
      by (auto split: if_splits dest: handleOneToOne_mode handleMultiple_mode)
    show ?thesis
    proof (cases "sid = SessionId sg")
      case True
      with t assms(2) sm' le show ?thesis by auto
    next
      case False
      with assms(2) sm' show ?thesis by (auto simp: modeLe_refl)
    qed
  qed
qed

lemma handleMessageUserSignal_mode:
  assumes "handleMessageUserSignal unmar mar sm p = Inr (sm', out)"
    and "sessions sm sid = Some s"
  shows "\<exists>s'. sessions sm' sid = Some s' \<and> modeLe (Mode s) (Mode s')"
proof (cases "Contains (dedup sm) p \<or> unmar p = None")
  case True
  with assms have "sessions sm' = sessions sm"
    by (auto simp: handleMessageUserSignal_def Let_def split: if_splits)
  with assms(2) show ?thesis by (auto simp: modeLe_refl)
next
  case False
  then obtain sg where "unmar p = Some sg" and "\<not> Contains (dedup sm) p" by auto
  with assms(1) have "handleSignal mar (sm\<lparr>dedup := Add (dedup sm) p True\<rparr>) sg = Inr (sm', out)"
    by (simp add: handleMessageUserSignal_def)
  from handleSignal_mode [OF this, of sid s] assms(2) show ?thesis by simp
qed

lemma loop_mode:
  "loop unmar mar sm ps = Inr (sm', out) \<Longrightarrow> sessions sm sid = Some s \<Longrightarrow>
   \<exists>s'. sessions sm' sid = Some s' \<and> modeLe (Mode s) (Mode s')"
proof (induction ps arbitrary: sm s out)
  case Nil
  then show ?case by (auto simp: modeLe_refl)
next
  case (Cons p ps)
  from Cons.prems(1) obtain sm1 out1 out2 where
    h: "handleMessageUserSignal unmar mar sm p = Inr (sm1, out1)"
    and l: "loop unmar mar sm1 ps = Inr (sm', out2)"
    by (auto simp: bindR_def split: sum.splits prod.splits)
  from handleMessageUserSignal_mode [OF h Cons.prems(2)] obtain s1 where
    s1: "sessions sm1 sid = Some s1" "modeLe (Mode s) (Mode s1)" by blast
  from Cons.IH [OF l s1(1)] obtain s' where "sessions sm' sid = Some s'" "modeLe (Mode s1) (Mode s')"
    by blast
  with s1 show ?case by (blast intro: modeLe_trans)
qed

text \<open>
  C5: over every sequence of handled payloads that the process survives, every session of
  the registry stays in the registry and its mode only moves up in the order Undecided
  below OneToOne below Multiple (and Undecided below Multiple); a session that is
  Multiple stays Multiple.
\<close>

theorem C5_mode_never_regresses:
  assumes "loop unmar mar sm ps = Inr (sm', out)" and "sessions sm sid = Some s"
  shows "\<exists>s'. sessions sm' sid = Some s' \<and> modeLe (Mode s) (Mode s')
           \<and> (Mode s = YCKCallModeMultiple \<longrightarrow> Mode s' = YCKCallModeMultiple)"
proof -
  from loop_mode [OF assms] obtain s' where "sessions sm' sid = Some s'" "modeLe (Mode s) (Mode s')"
    by blast
  then show ?thesis by (cases "Mode s") auto
qed

theorem C5_mode_never_regresses_witness:
  "loop exUnmarshal exMarshal exManager [[2]] =
     Inr (exManagerInvited,
          [NewMessage UdpMessageTypeUserSignal SessionManagerUserId 77 [3, 42, 77]])
   \<and> sessions exManager 7 = Some (NewSession 7)
   \<and> (\<exists>s'. sessions exManagerInvited 7 = Some s'
          \<and> modeLe (Mode (NewSession 7)) (Mode s')
          \<and> (Mode (NewSession 7) = YCKCallModeMultiple \<longrightarrow> Mode s' = YCKCallModeMultiple))"
proof -
  have h: "loop exUnmarshal exMarshal exManager [[2]] =
     Inr (exManagerInvited,
          [NewMessage UdpMessageTypeUserSignal SessionManagerUserId 77 [3, 42, 77]])"
    "sessions exManager 7 = Some (NewSession 7)"
    by (simp_all add: handler_defs example_defs)
  from h C5_mode_never_regresses [OF h] show ?thesis by blast
qed

section \<open>C9: a signal to the session manager promotes an Undecided session\<close>

text \<open>
  C9 as stated (any signal addressed to the session manager for an existing Undecided
  session sets its mode to Multiple, whatever the kind, and every later 1-1-routed signal
  for the session is refused) fails for a SidRequest: the SidRequest arm answers before
  any session is looked up and never reads the session id. A SidRequest addressed to the
  session manager and carrying the id of the Undecided session 7 allocates session 8 and
  leaves session 7 Undecided; the Invite from 42 to 77 that follows is not refused but
  forwarded to 77.
\<close>

theorem C9_counterexample:
  "To exSidRequestForSession = SessionManagerUserId
   \<and> sessions exManagerRand (SessionId exSidRequestForSession) = Some (NewSession 7)
   \<and> Mode (NewSession 7) = YCKCallModeUndecided
   \<and> map_sum id (\<lambda>r. map_option Mode (sessions (fst r) 7))
         (loop exUnmarshal exMarshal exManagerRand [[10]]) = Inr (Some YCKCallModeUndecided)
   \<and> map_sum id snd (loop exUnmarshal exMarshal exManagerRand [[10], [2]]) =
       Inr [NewMessage UdpMessageTypeUserSignal SessionManagerUserId 42 [2, 255, 42],
            NewMessage UdpMessageTypeUserSignal SessionManagerUserId 77 [3, 42, 77]]"
  by (simp add: handler_defs example_defs)

lemma multipleSwitch_returns:
  "Signal sg \<noteq> YCKCallSignalTypeMemberOp \<Longrightarrow> \<exists>s' out. multipleSwitch mar s sg = Inr (s', out)"
  by (cases "Signal sg"; cases "map_of (Participants s) (From sg)")
     (auto simp: multipleSwitch_def Let_def SetState_def SetEvent_def bindR_def update_conv')

lemma refused_in_Multiple:
  assumes "sessions sm (SessionId sg) = Some s" and "Mode s = YCKCallModeMultiple"
    and "Signal sg \<noteq> YCKCallSignalTypeSidRequest" and "To sg \<noteq> SessionManagerUserId"
  shows "handleSignal mar sm sg = Inr (sm, [])"
proof -
  have "(sessions sm)(SessionId sg \<mapsto> s) = sessions sm"
    using assms(1) by (rule map_upd_triv)
  with assms show ?thesis
    by (simp add: handleSignal_def handleOneToOne_def bindR_def)
qed

lemma refused_payload_in_Multiple:
  assumes "sessions sm (SessionId sg) = Some s" and "Mode s = YCKCallModeMultiple"
    and "Signal sg \<noteq> YCKCallSignalTypeSidRequest" and "To sg \<noteq> SessionManagerUserId"
    and "unmar p = Some sg"
  shows "\<exists>sm'. handleMessageUserSignal unmar mar sm p = Inr (sm', [])
           \<and> sessions sm' = sessions sm"
proof (cases "Contains (dedup sm) p")
  case True
  then show ?thesis by (simp add: handleMessageUserSignal_def)
next
  case False
  have "handleSignal mar (sm\<lparr>dedup := Add (dedup sm) p True\<rparr>) sg
          = Inr (sm\<lparr>dedup := Add (dedup sm) p True\<rparr>, [])"
    using assms(1-4) by (intro refused_in_Multiple [where s = s]) simp_all
  with False assms(5) show ?thesis by (simp add: handleMessageUserSignal_def)
qed

text \<open>
  C9, amended: a signal other than a SidRequest, with a nonzero session id, addressed to
  the session manager for an existing session whose mode is Undecided is dispatched on
  the session with its mode already set to Multiple, whatever its kind and whether or not
  a guard holds; every kind but MemberOp returns; and in every state the loop reaches
  afterwards the session is still Multiple and every 1-1-routed signal for it (\<open>To\<close>
  other than the session manager, not a SidRequest) is refused: no outbound message, the
  registry unchanged.
\<close>

theorem C9_undecided_promoted_then_refuses:
  assumes "\<not> Contains (dedup sm) payload" and "unmar payload = Some sg"
    and "Signal sg \<noteq> YCKCallSignalTypeSidRequest" and "SessionId sg \<noteq> 0"
    and "To sg = SessionManagerUserId"
    and "sessions sm (SessionId sg) = Some s" and "Mode s = YCKCallModeUndecided"
  shows "handleMessageUserSignal unmar mar sm payload =
           bindR (multipleSwitch mar (s\<lparr>Mode := YCKCallModeMultiple\<rparr>) sg) (\<lambda>(s1, out).
             Inr (sm\<lparr>sessions := (sessions sm)(SessionId sg \<mapsto> s1),
                      dedup := Add (dedup sm) payload True\<rparr>, out @ fanout mar s1))
       \<and> (Signal sg \<noteq> YCKCallSignalTypeMemberOp \<longrightarrow>
           (\<exists>sm1 out1. handleMessageUserSignal unmar mar sm payload = Inr (sm1, out1)))
       \<and> (\<forall>sm1 out1 ps sm2 out2.
           handleMessageUserSignal unmar mar sm payload = Inr (sm1, out1) \<and>
           loop unmar mar sm1 ps = Inr (sm2, out2) \<longrightarrow>
             (\<exists>s2. sessions sm2 (SessionId sg) = Some s2 \<and> Mode s2 = YCKCallModeMultiple) \<and>
             (\<forall>p2 sg2. unmar p2 = Some sg2 \<and> Signal sg2 \<noteq> YCKCallSignalTypeSidRequest \<and>
                 To sg2 \<noteq> SessionManagerUserId \<and> SessionId sg2 = SessionId sg \<longrightarrow>
                 (\<exists>sm3. handleMessageUserSignal unmar mar sm2 p2 = Inr (sm3, [])
                    \<and> sessions sm3 = sessions sm2)))"
proof -
  have eq: "handleMessageUserSignal unmar mar sm payload =
           bindR (multipleSwitch mar (s\<lparr>Mode := YCKCallModeMultiple\<rparr>) sg) (\<lambda>(s1, out).
             Inr (sm\<lparr>sessions := (sessions sm)(SessionId sg \<mapsto> s1),
                      dedup := Add (dedup sm) payload True\<rparr>, out @ fanout mar s1))"
    using assms
    by (auto simp: handleMessageUserSignal_def handleSignal_def handleMultiple_def
        promote_def bindR_def split: sum.splits)
  have ret: "Signal sg \<noteq> YCKCallSignalTypeMemberOp \<longrightarrow>
           (\<exists>sm1 out1. handleMessageUserSignal unmar mar sm payload = Inr (sm1, out1))"
  proof
    assume "Signal sg \<noteq> YCKCallSignalTypeMemberOp"
    from multipleSwitch_returns [OF this, of mar "s\<lparr>Mode := YCKCallModeMultiple\<rparr>"]
    show "\<exists>sm1 out1. handleMessageUserSignal unmar mar sm payload = Inr (sm1, out1)"
      unfolding eq by (auto simp: bindR_def)
  qed
  have after: "\<forall>sm1 out1 ps sm2 out2.
           handleMessageUserSignal unmar mar sm payload = Inr (sm1, out1) \<and>
           loop unmar mar sm1 ps = Inr (sm2, out2) \<longrightarrow>
             (\<exists>s2. sessions sm2 (SessionId sg) = Some s2 \<and> Mode s2 = YCKCallModeMultiple) \<and>
             (\<forall>p2 sg2. unmar p2 = Some sg2 \<and> Signal sg2 \<noteq> YCKCallSignalTypeSidRequest \<and>
                 To sg2 \<noteq> SessionManagerUserId \<and> SessionId sg2 = SessionId sg \<longrightarrow>
                 (\<exists>sm3. handleMessageUserSignal unmar mar sm2 p2 = Inr (sm3, [])
                    \<and> sessions sm3 = sessions sm2))"
  proof (intro allI impI, elim conjE)
    fix sm1 out1 ps sm2 out2
    assume h: "handleMessageUserSignal unmar mar sm payload = Inr (sm1, out1)"
      and l: "loop unmar mar sm1 ps = Inr (sm2, out2)"
    from h obtain s1 o1 where sw: "multipleSwitch mar (s\<lparr>Mode := YCKCallModeMultiple\<rparr>) sg = Inr (s1, o1)"
      and sm1: "sessions sm1 = (sessions sm)(SessionId sg \<mapsto> s1)"
      unfolding eq by (auto simp: bindR_def split: sum.splits prod.splits)
    from multipleSwitch_mode [OF sw] have "Mode s1 = YCKCallModeMultiple" by simp
    moreover from sm1 have "sessions sm1 (SessionId sg) = Some s1" by simp
    ultimately obtain s2 where s2: "sessions sm2 (SessionId sg) = Some s2"
      "Mode s2 = YCKCallModeMultiple"
      using loop_mode [OF l, of "SessionId sg" s1] by auto
    show "(\<exists>s2. sessions sm2 (SessionId sg) = Some s2 \<and> Mode s2 = YCKCallModeMultiple) \<and>
             (\<forall>p2 sg2. unmar p2 = Some sg2 \<and> Signal sg2 \<noteq> YCKCallSignalTypeSidRequest \<and>
                 To sg2 \<noteq> SessionManagerUserId \<and> SessionId sg2 = SessionId sg \<longrightarrow>
                 (\<exists>sm3. handleMessageUserSignal unmar mar sm2 p2 = Inr (sm3, [])
                    \<and> sessions sm3 = sessions sm2))"
    proof (rule conjI)
      show "\<exists>s2. sessions sm2 (SessionId sg) = Some s2 \<and> Mode s2 = YCKCallModeMultiple"
        using s2 by blast
    next
      show "\<forall>p2 sg2. unmar p2 = Some sg2 \<and> Signal sg2 \<noteq> YCKCallSignalTypeSidRequest \<and>
                 To sg2 \<noteq> SessionManagerUserId \<and> SessionId sg2 = SessionId sg \<longrightarrow>
                 (\<exists>sm3. handleMessageUserSignal unmar mar sm2 p2 = Inr (sm3, [])
                    \<and> sessions sm3 = sessions sm2)"
      proof (intro allI impI, elim conjE)
        fix p2 sg2
        assume "unmar p2 = Some sg2" and "Signal sg2 \<noteq> YCKCallSignalTypeSidRequest"
          and "To sg2 \<noteq> SessionManagerUserId" and "SessionId sg2 = SessionId sg"
        with s2 show "\<exists>sm3. handleMessageUserSignal unmar mar sm2 p2 = Inr (sm3, [])
                    \<and> sessions sm3 = sessions sm2"
          by (intro refused_payload_in_Multiple [where s = s2 and sg = sg2]) simp_all
      qed
    qed
  qed
from eq ret after show ?thesis by blast
qed

theorem C9_undecided_promoted_then_refuses_witness:
  "\<not> Contains (dedup exManager) [5] \<and> exUnmarshal [5] = Some exInviteSM
   \<and> Signal exInviteSM \<noteq> YCKCallSignalTypeSidRequest \<and> SessionId exInviteSM \<noteq> 0
   \<and> To exInviteSM = SessionManagerUserId
   \<and> sessions exManager (SessionId exInviteSM) = Some (NewSession 7)
   \<and> Mode (NewSession 7) = YCKCallModeUndecided
   \<and> Signal exInviteSM \<noteq> YCKCallSignalTypeMemberOp
   \<and> (\<exists>sm1 out1. handleMessageUserSignal exUnmarshal exMarshal exManager [5]
          = Inr (sm1, out1))"
proof -
  have h: "\<not> Contains (dedup exManager) [5]" "exUnmarshal [5] = Some exInviteSM"
    "Signal exInviteSM \<noteq> YCKCallSignalTypeSidRequest" "SessionId exInviteSM \<noteq> 0"
    "To exInviteSM = SessionManagerUserId"
    "sessions exManager (SessionId exInviteSM) = Some (NewSession 7)"
    "Mode (NewSession 7) = YCKCallModeUndecided"
    "Signal exInviteSM \<noteq> YCKCallSignalTypeMemberOp"
    by (simp_all add: handler_defs example_defs)
  from h C9_undecided_promoted_then_refuses [where sm = exManager and payload = "[5]"
      and unmar = exUnmarshal and sg = exInviteSM and s = "NewSession 7" and mar = exMarshal]
  show ?thesis by blast
qed

section \<open>C6: a payload the dedup cache holds is dropped\<close>

lemma Contains_keys: "Contains c k \<longleftrightarrow> k \<in> set (map fst (entries c))"
  by (auto simp: Contains_def map_of_eq_None_iff)

lemma handleSignal_dedup:
  "handleSignal mar sm sg = Inr (sm', out) \<Longrightarrow> dedup sm' = dedup sm"
  by (auto simp: handleSignal_def bindR_def split: if_splits option.splits sum.splits prod.splits)

lemma handleMessageUserSignal_dedup:
  assumes "handleMessageUserSignal unmar mar sm p = Inr (sm', out)"
  shows "dedup sm' = (if Contains (dedup sm) p then dedup sm else Add (dedup sm) p True)"
proof (cases "Contains (dedup sm) p")
  case True
  with assms show ?thesis by (simp add: handleMessageUserSignal_def)
next
  case False
  show ?thesis
  proof (cases "unmar p")
    case None
    with False assms show ?thesis by (auto simp: handleMessageUserSignal_def)
  next
    case (Some sg)
    with False assms
    have "handleSignal mar (sm\<lparr>dedup := Add (dedup sm) p True\<rparr>) sg = Inr (sm', out)"
      by (simp add: handleMessageUserSignal_def)
    from handleSignal_dedup [OF this] False show ?thesis by simp
  qed
qed

lemma dropped_when_cached:
  "Contains (dedup sm) p \<Longrightarrow> handleMessageUserSignal unmar mar sm p = Inr (sm, [])"
  by (simp add: handleMessageUserSignal_def)

lemma Add_fresh_keys:
  "\<not> Contains c k \<Longrightarrow>
   map fst (entries (Add c k v)) = take (capacity c) (k # map fst (entries c))
   \<and> capacity (Add c k v) = capacity c"
  by (simp add: Add_def take_map [symmetric])

lemma survives:
  assumes "loop unmar mar sm ms = Inr (sm', out)"
    and "map fst (entries (dedup sm)) = newer @ p # older"
    and "distinct newer"
    and "card (set newer \<union> set ms) < capacity (dedup sm)"
  shows "Contains (dedup sm') p"
  using assms
proof (induction ms arbitrary: sm newer older out)
  case Nil
  then show ?case by (simp add: Contains_keys)
next
  case (Cons m ms)
  from Cons.prems(1) obtain sm1 out1 out2 where
    h: "handleMessageUserSignal unmar mar sm m = Inr (sm1, out1)"
    and l: "loop unmar mar sm1 ms = Inr (sm', out2)"
    by (auto simp: bindR_def split: sum.splits prod.splits)
  note d = handleMessageUserSignal_dedup [OF h]
  show ?case
  proof (cases "Contains (dedup sm) m")
    case True
    with d have eq: "dedup sm1 = dedup sm" by simp
    have "card (set newer \<union> set ms) \<le> card (set newer \<union> set (m # ms))"
      by (rule card_mono) auto
    with Cons.prems(4) have "card (set newer \<union> set ms) < capacity (dedup sm1)"
      by (simp add: eq)
    from Cons.IH [OF l _ Cons.prems(3) this] Cons.prems(2) eq show ?thesis by simp
  next
    case False
    with d have eq: "dedup sm1 = Add (dedup sm) m True" by simp
    from False Cons.prems(2) have notin: "m \<notin> set newer"
      by (simp add: Contains_keys)
    then have dist: "distinct (m # newer)" using Cons.prems(3) by simp
    have "length (m # newer) = card (set (m # newer))"
      using dist by (simp only: distinct_card)
    also have "\<dots> \<le> card (set newer \<union> set (m # ms))"
      by (rule card_mono) auto
    finally have len: "length (m # newer) < capacity (dedup sm)"
      using Cons.prems(4) by simp
    have keys: "map fst (entries (dedup sm1))
                  = (m # newer) @ p # take (capacity (dedup sm) - length (m # newer) - 1) older"
      using Add_fresh_keys [OF False, of True] Cons.prems(2) len
      by (simp add: eq take_Cons' )
    have cap: "capacity (dedup sm1) = capacity (dedup sm)"
      using Add_fresh_keys [OF False, of True] by (simp add: eq)
    have "set (m # newer) \<union> set ms = set newer \<union> set (m # ms)" by auto
    with Cons.prems(4) cap have "card (set (m # newer) \<union> set ms) < capacity (dedup sm1)"
      by simp
    from Cons.IH [OF l keys dist this] show ?thesis .
  qed
qed

text \<open>
  C6, with the cache of capacity 100 that the constructor sets up: delivering a payload a
  second time right after the first leaves the whole state as the first delivery left it
  and emits nothing; a payload the cache does not hold is remembered and goes on to
  unmarshalling and dispatch; and when fewer than 100 distinct payloads are handled between
  the two arrivals, the second arrival is dropped: the state is unchanged and nothing is
  emitted, before any unmarshalling.
\<close>

theorem C6_duplicate_payload_dropped:
  assumes "capacity (dedup sm) = 100"
    and "handleMessageUserSignal unmar mar sm p = Inr (sm1, out1)"
  shows "handleMessageUserSignal unmar mar sm1 p = Inr (sm1, [])
       \<and> (\<not> Contains (dedup sm) p \<longrightarrow>
            handleMessageUserSignal unmar mar sm p =
              (case unmar p of
                 None \<Rightarrow> Inr (sm\<lparr>dedup := Add (dedup sm) p True\<rparr>, [])
               | Some sg \<Rightarrow> handleSignal mar (sm\<lparr>dedup := Add (dedup sm) p True\<rparr>) sg))
       \<and> (\<forall>ms sm2 out2.
            \<not> Contains (dedup sm) p \<and> card (set ms) < 100 \<and>
            loop unmar mar sm1 ms = Inr (sm2, out2) \<longrightarrow>
            handleMessageUserSignal unmar mar sm2 p = Inr (sm2, []))"
proof -
  note d = handleMessageUserSignal_dedup [OF assms(2)]
  have keys1: "\<not> Contains (dedup sm) p \<Longrightarrow>
      map fst (entries (dedup sm1)) = [] @ p # take 99 (map fst (entries (dedup sm)))
      \<and> capacity (dedup sm1) = 100"
    using d assms(1) Add_fresh_keys [of "dedup sm" p True] by (simp add: take_Cons')
  have c1: "Contains (dedup sm1) p"
  proof (cases "Contains (dedup sm) p")
    case True
    with d show ?thesis by simp
  next
    case False
    from keys1 [OF this] show ?thesis by (simp add: Contains_keys)
  qed
  then have first: "handleMessageUserSignal unmar mar sm1 p = Inr (sm1, [])"
    by (rule dropped_when_cached)
  have second: "\<not> Contains (dedup sm) p \<longrightarrow>
            handleMessageUserSignal unmar mar sm p =
              (case unmar p of
                 None \<Rightarrow> Inr (sm\<lparr>dedup := Add (dedup sm) p True\<rparr>, [])
               | Some sg \<Rightarrow> handleSignal mar (sm\<lparr>dedup := Add (dedup sm) p True\<rparr>) sg)"
    by (simp add: handleMessageUserSignal_def Let_def)
  have third: "\<forall>ms sm2 out2.
            \<not> Contains (dedup sm) p \<and> card (set ms) < 100 \<and>
            loop unmar mar sm1 ms = Inr (sm2, out2) \<longrightarrow>
            handleMessageUserSignal unmar mar sm2 p = Inr (sm2, [])"
  proof (intro allI impI, elim conjE)
    fix ms sm2 out2
    assume nc: "\<not> Contains (dedup sm) p" and card: "card (set ms) < 100"
      and l: "loop unmar mar sm1 ms = Inr (sm2, out2)"
    from keys1 [OF nc] card
    have "Contains (dedup sm2) p"
      by (intro survives [OF l, where newer = "[]"]) simp_all
    then show "handleMessageUserSignal unmar mar sm2 p = Inr (sm2, [])"
      by (rule dropped_when_cached)
  qed
  from first second third show ?thesis by blast
qed

theorem C6_duplicate_payload_dropped_witness:
  "capacity (dedup exManager) = 100
   \<and> handleMessageUserSignal exUnmarshal exMarshal exManager [2] =
       Inr (exManagerInvited,
            [NewMessage UdpMessageTypeUserSignal SessionManagerUserId 77 [3, 42, 77]])
   \<and> \<not> Contains (dedup exManager) [2] \<and> card (set [[9], [8 :: 8 word]]) < 100
   \<and> loop exUnmarshal exMarshal exManagerInvited [[9], [8]] =
       Inr (exManagerInvited\<lparr>dedup :=
              \<lparr>capacity = 100, entries = [([8], True), ([9], True), ([2], True)]\<rparr>\<rparr>, [])
   \<and> handleMessageUserSignal exUnmarshal exMarshal exManagerInvited [2] =
       Inr (exManagerInvited, [])
   \<and> handleMessageUserSignal exUnmarshal exMarshal
         (exManagerInvited\<lparr>dedup :=
              \<lparr>capacity = 100, entries = [([8], True), ([9], True), ([2], True)]\<rparr>\<rparr>) [2] =
       Inr (exManagerInvited\<lparr>dedup :=
              \<lparr>capacity = 100, entries = [([8], True), ([9], True), ([2], True)]\<rparr>\<rparr>, [])"
proof -
  have h: "capacity (dedup exManager) = 100"
    "handleMessageUserSignal exUnmarshal exMarshal exManager [2] =
       Inr (exManagerInvited,
            [NewMessage UdpMessageTypeUserSignal SessionManagerUserId 77 [3, 42, 77]])"
    by (simp_all add: handler_defs example_defs)
  have g: "\<not> Contains (dedup exManager) [2]" "card (set [[9], [8 :: 8 word]]) < 100"
    "loop exUnmarshal exMarshal exManagerInvited [[9], [8]] =
       Inr (exManagerInvited\<lparr>dedup :=
              \<lparr>capacity = 100, entries = [([8], True), ([9], True), ([2], True)]\<rparr>\<rparr>, [])"
    by (simp_all add: handler_defs example_defs)
  from h g C6_duplicate_payload_dropped [OF h]
  show ?thesis by blast
qed

section \<open>C3: the sample buffer\<close>

lemma NewMetrics_bounds:
  "length (stat (NewMetrics now1 now2)) = StatBufferSize
   \<and> pos (NewMetrics now1 now2) < StatBufferSize"
  by (simp add: NewMetrics_def StatBufferSize_def)


lemma pairLoop_length:
  "length (fst (pairLoop u qs (st, w))) = length st"
  by (induction qs arbitrary: st w) auto

lemma windowStep_length:
  "length (fst (windowStep n p (st, w))) = length st"
  by (simp add: windowStep_def Let_def pairLoop_length)

lemma fold_windowStep_length:
  "length (fst (fold (windowStep n) ps sw)) = length (fst sw)"
proof (induction ps arbitrary: sw)
  case Nil
  show ?case by simp
next
  case (Cons p ps)
  obtain st w where "sw = (st, w)" by (cases sw)
  with Cons show ?case by (simp add: windowStep_length)
qed

lemma windowLoop_length:
  "windowLoop n st = (st', w) \<Longrightarrow> length st' = length st"
  using fold_windowStep_length [of n "[0 ..< n]" "(st, emptyWindow)"]
  by (simp add: windowLoop_def)

lemma carry_prefix:
  "k \<le> length st \<Longrightarrow>
   length (fold (\<lambda>i s. s[i := (s ! (d + i))\<lparr>paired := False\<rparr>]) [0 ..< k] st) = length st
   \<and> (\<forall>i<k. \<not> paired (fold (\<lambda>i s. s[i := (s ! (d + i))\<lparr>paired := False\<rparr>]) [0 ..< k] st ! i))"
proof (induction k)
  case 0
  show ?case by simp
next
  case (Suc k)
  then show ?case by (auto simp: nth_list_update less_Suc_eq)
qed

lemma carryOver_cleared:
  assumes "reuse \<le> length st"
  shows "length (carryOver n st) = length st \<and> (\<forall>i<reuse. \<not> paired (carryOver n st ! i))"
  using carry_prefix [OF assms, of "n - reuse"] by (simp add: carryOver_def)

lemma Process_bounds:
  assumes "length (stat m) = StatBufferSize" and "pos m < StatBufferSize"
  shows "\<exists>m' ok data. Process k m msg ts = Inr (m', ok, data)
           \<and> length (stat m') = StatBufferSize \<and> pos m' < StatBufferSize
           \<and> (closesWindow m ts \<longrightarrow>
                pos m' \<le> reuse \<and>
                (reuse < pos m + 1 \<longrightarrow>
                   pos m' = reuse \<and> (\<forall>i<pos m'. \<not> paired (stat m' ! i))))"
proof (cases "closesWindow m ts")
  case False
  with assms show ?thesis
    by (auto simp: Process_def Let_def closesWindow_def)
next
  case True
  let ?st1 = "(stat m)[pos m := \<lparr>paired = False, tid = Tid msg, tseq = Tseq msg,
                      bytes = NetTrafficSize msg, timestamp = ts\<rparr>]"
  obtain st2 w where wl: "windowLoop (pos m + 1) ?st1 = (st2, w)"
    by (cases "windowLoop (pos m + 1) ?st1")
  from windowLoop_length [OF wl] assms(1) have len2: "length st2 = StatBufferSize" by simp
  show ?thesis
  proof (cases "reuse < pos m + 1")
    case big: True
    have "reuse \<le> length st2" using len2 by (simp add: reuse_def StatBufferSize_def)
    from carryOver_cleared [OF this, of "pos m + 1"] len2
    have c: "length (carryOver (pos m + 1) st2) = StatBufferSize"
      "\<forall>i<reuse. \<not> paired (carryOver (pos m + 1) st2 ! i)" by simp_all
    have "reuse < StatBufferSize" by (simp add: reuse_def StatBufferSize_def)
    with True big wl assms c show ?thesis
      by (simp add: Process_def Let_def)
  next
    case small: False
    then have "pos m + 1 < StatBufferSize" by (simp add: reuse_def StatBufferSize_def)
    with True small wl assms len2 show ?thesis
      by (simp add: Process_def Let_def)
  qed
qed

lemma feed_bounds:
  "length (stat m) = StatBufferSize \<Longrightarrow> pos m < StatBufferSize \<Longrightarrow>
   \<exists>m'. feed k m cs = Inr m' \<and> length (stat m') = StatBufferSize \<and> pos m' < StatBufferSize"
proof (induction cs arbitrary: m)
  case Nil
  then show ?case by simp
next
  case (Cons c cs)
  obtain msg ts where c: "c = (msg, ts)" by (cases c)
  from Process_bounds [OF Cons.prems, of k msg ts] obtain m1 ok data where
    p: "Process k m msg ts = Inr (m1, ok, data)"
    and wf: "length (stat m1) = StatBufferSize" "pos m1 < StatBufferSize" by blast
  from Cons.IH [OF wf] p c show ?case by (simp add: bindR_def)
qed


lemma replicate_120:
  "replicate 120 z = z # z # replicate 118 z"
  using replicate_add [of 2 118 z] by (simp add: numeral_2_eq_2)


text \<open>
  C3 as stated (after every window closure \<open>pos \<le> 20\<close> and every sample below \<open>pos\<close>
  has \<open>paired = false\<close>) fails when a window closes on the timer with at most 20
  samples buffered: the carry-over loop, which is what clears the flags, runs only under
  \<^verbatim>\<open>reuse < m.pos\<close>. Two samples with the same sequence number, two seconds apart:
  the second call closes the window with \<open>pos = 2\<close>, the pairing marks sample 1, and
  the mark stays.
\<close>

theorem C3_counterexample:
  "closesWindow (projr (feed exFrameConstants (NewMetrics 0 0) [(exMedia, 0)])) 2000000000
   \<and> feed exFrameConstants (NewMetrics 0 0) [(exMedia, 0), (exMedia, 2000000000)]
       = Inr \<lparr>stat = \<lparr>paired = False, tid = 7, tseq = 5, bytes = 200, timestamp = 0\<rparr>
                   # \<lparr>paired = True, tid = 7, tseq = 5, bytes = 200, timestamp = 2000000000\<rparr>
                   # replicate 118 \<lparr>paired = False, tid = 0, tseq = 0, bytes = 0, timestamp = 0\<rparr>,
              pos = 2, lastTimestamp = 2000000000, lastTimestampRTT = 0\<rparr>"
  by (simp add: NewMetrics_def replicate_120 Process_def closesWindow_def bindR_def
      exMedia_def exFrameConstants_def windowLoop_def windowStep_def seqStep_def
      packetShould_def emptyWindow_def reuse_def Let_def upt_rec [of 0] upt_rec [of 1]
      StatBufferSize_def)

text \<open>
  C3, amended: from a buffer of 120 samples with \<open>pos < 120\<close> (the initial one is
  such), after every sequence of calls \<open>pos < 120\<close>, so every call writes at a valid
  index and returns; after a call that closes a window \<open>pos \<le> 20\<close>; and when the
  window closes with more than 20 samples buffered, \<open>pos = 20\<close> and every sample below
  \<open>pos\<close> has \<open>paired = false\<close>.
\<close>

theorem C3_buffer_bounds:
  assumes "length (stat m) = StatBufferSize" and "pos m < StatBufferSize"
  shows "\<exists>m1. feed k m cs = Inr m1 \<and> pos m1 < StatBufferSize
           \<and> (\<exists>m2 ok data. Process k m1 msg ts = Inr (m2, ok, data)
                 \<and> pos m2 < StatBufferSize
                 \<and> (closesWindow m1 ts \<longrightarrow>
                      pos m2 \<le> reuse \<and>
                      (reuse < pos m1 + 1 \<longrightarrow>
                         pos m2 = reuse \<and> (\<forall>i<pos m2. \<not> paired (stat m2 ! i)))))"
proof -
  from feed_bounds [OF assms, of k cs] obtain m1 where
    f: "feed k m cs = Inr m1" and wf: "length (stat m1) = StatBufferSize" "pos m1 < StatBufferSize"
    by blast
  from Process_bounds [OF wf, of k msg ts] f wf(2) show ?thesis by blast
qed


theorem C3_buffer_bounds_witness:
  "length (stat exMetrics) = StatBufferSize \<and> pos exMetrics < StatBufferSize
   \<and> feed exFrameConstants exMetrics [] = Inr exMetrics
   \<and> closesWindow exMetrics 2000000000 \<and> reuse < pos exMetrics + 1
   \<and> (\<exists>m2 ok data. Process exFrameConstants exMetrics exMedia 2000000000 = Inr (m2, ok, data)
         \<and> pos m2 = reuse \<and> (\<forall>i<pos m2. \<not> paired (stat m2 ! i)))"
proof -
  have h: "length (stat exMetrics) = StatBufferSize" "pos exMetrics < StatBufferSize"
    by (simp_all add: exMetrics_def NewMetrics_def StatBufferSize_def)
  have g: "feed exFrameConstants exMetrics [] = Inr exMetrics"
    "closesWindow exMetrics 2000000000" "reuse < pos exMetrics + 1"
    by (simp_all add: exMetrics_def NewMetrics_def closesWindow_def reuse_def)
  from h g C3_buffer_bounds [OF h, of exFrameConstants "[]" exMedia 2000000000]
  show ?thesis by auto
qed

section \<open>C7: sequence arithmetic of a window\<close>

lemma wrap16_signed: "signed_take_bit 15 (x :: int) = wrap16 x"
  by (simp add: wrap16_def signed_take_bit_eq_take_bit_shift take_bit_eq_mod)

lemma sint_diff16: "sint (a - b :: 16 word) = wrap16 (sint a - sint b)"
  by (simp add: sint_word_ariths wrap16_signed)

lemma sint_double16: "sint (2 * a :: 16 word) = wrap16 (2 * sint a)"
  by (simp add: sint_word_ariths wrap16_signed)

lemma sint_zero16: "sint (a :: 16 word) = 0 \<longleftrightarrow> a = 0"
  by (simp add: signed_eq_0_iff)

lemma seqStep_spec:
  "(sint (minSeq (seqStep t w)), sint (maxSeq (seqStep t w)))
     = specSeqStep (sint t) (sint (minSeq w), sint (maxSeq w))"
  by (simp add: seqStep_def specSeqStep_def Let_def sint_diff16 sint_zero16)

lemma clamp_spec:
  "sint ps = d \<Longrightarrow>
   sint (if sint ps < 0 \<or> c then 0 else ps :: 16 word) = (if d < 0 \<or> c then 0 else d)"
  by auto

lemma packetShould_spec:
  "sint (packetShould w) = specPacketShould (sint (minSeq w), sint (maxSeq w))"
proof -
  have "sint (2 * (maxSeq w - minSeq w)) = wrap16 (2 * wrap16 (sint (maxSeq w) - sint (minSeq w)))"
    by (simp only: sint_double16 sint_diff16)
  from clamp_spec [OF this, of "minSeq w = 0 \<and> maxSeq w = 0"] show ?thesis
    unfolding packetShould_def specPacketShould_def Let_def prod.case sint_zero16 .
qed

lemma update_paired_tseq:
  "map tseq (st[q := (st ! q)\<lparr>paired := b\<rparr>]) = map tseq st"
proof (cases "q < length st")
  case True
  then show ?thesis by (auto simp: list_eq_iff_nth_eq nth_list_update)
next
  case False
  then have "st[q := (st ! q)\<lparr>paired := b\<rparr>] = st"
    by (intro list_update_beyond) simp
  then show ?thesis by simp
qed

lemma pairLoop_keeps:
  "map tseq (fst (pairLoop u qs (st, w))) = map tseq st
   \<and> minSeq (snd (pairLoop u qs (st, w))) = minSeq w
   \<and> maxSeq (snd (pairLoop u qs (st, w))) = maxSeq w"
  by (induction qs arbitrary: st w) (simp_all add: update_paired_tseq)

lemma window_prefix:
  assumes "n \<le> length st" and "k \<le> n"
  shows "map tseq (fst (fold (windowStep n) [0 ..< k] (st, emptyWindow))) = map tseq st
     \<and> (sint (minSeq (snd (fold (windowStep n) [0 ..< k] (st, emptyWindow)))),
         sint (maxSeq (snd (fold (windowStep n) [0 ..< k] (st, emptyWindow)))))
        = specMinMax (map (\<lambda>u. sint (tseq u)) (take k st))"
  using assms(2)
proof (induction k)
  case 0
  show ?case by (simp add: specMinMax_def emptyWindow_def)
next
  case (Suc k)
  obtain st1 w1 where f: "fold (windowStep n) [0 ..< k] (st, emptyWindow) = (st1, w1)"
    by (cases "fold (windowStep n) [0 ..< k] (st, emptyWindow)")
  from Suc f have ts: "map tseq st1 = map tseq st"
    and mm: "(sint (minSeq w1), sint (maxSeq w1)) = specMinMax (map (\<lambda>u. sint (tseq u)) (take k st))"
    by simp_all
  have k: "k < length st" using Suc.prems assms(1) by simp
  have "length st1 = length st" using ts by (metis length_map)
  with k ts have tk: "tseq (st1 ! k) = tseq (st ! k)" by (metis nth_map)
  let ?w2 = "seqStep (tseq (st1 ! k)) (w1\<lparr>totalBytes := totalBytes w1 + uint (bytes (st1 ! k))\<rparr>)"
  have step: "fold (windowStep n) [0 ..< Suc k] (st, emptyWindow)
                = pairLoop (st1 ! k) [k + 1 ..< min (k + 10) n] (st1, ?w2)"
    by (simp add: f windowStep_def Let_def)
  have w2: "(sint (minSeq ?w2), sint (maxSeq ?w2))
              = specSeqStep (sint (tseq (st ! k))) (sint (minSeq w1), sint (maxSeq w1))"
    using seqStep_spec [of "tseq (st1 ! k)" "w1\<lparr>totalBytes := totalBytes w1 + uint (bytes (st1 ! k))\<rparr>"]
    by (simp add: tk)
  have tk2: "take (Suc k) st = take k st @ [st ! k]"
    using k by (rule take_Suc_conv_app_nth)
  from pairLoop_keeps [of "st1 ! k" "[k + 1 ..< min (k + 10) n]" st1 ?w2] ts w2 mm
  show ?case
    unfolding step by (simp add: tk2 specMinMax_def)
qed

lemma windowLoop_spec:
  assumes "n \<le> length st" and "windowLoop n st = (st', w)"
  shows "(sint (minSeq w), sint (maxSeq w)) = specMinMax (map (\<lambda>u. sint (tseq u)) (take n st))"
  using window_prefix [OF assms(1), of n] assms(2) by (simp add: windowLoop_def)

text \<open>
  The comparison is not the one of the widened values: after 32767 the sequence number
  -32768 is the later one; and a doubled difference that leaves the signed 16-bit range
  is clamped to 0.
\<close>

lemma seqStep_wraps:
  "maxSeq (seqStep (- 32768) (emptyWindow\<lparr>minSeq := 32767, maxSeq := 32767\<rparr>)) = - 32768"
  by (simp add: seqStep_def emptyWindow_def)

lemma packetShould_clamps:
  "packetShould (emptyWindow\<lparr>minSeq := 1, maxSeq := 20001\<rparr>) = 0"
  by (simp add: packetShould_def emptyWindow_def)

text \<open>
  C7: in every window closure of \<open>Process\<close>, the minimum and maximum the loop leaves
  are those of the spec's reading over the buffered samples (the sign of the difference
  wrapped to 16 bits decides, \<open>(0, 0)\<close> is uninitialised), \<open>packetShould\<close> is twice
  their wrapped difference, wrapped, and 0 when negative or uninitialised; the uplink frame
  is returned exactly when that value is positive.
\<close>

theorem C7_sequence_arithmetic:
  fixes m :: Metrics and msg :: MediaMessage and ts :: "64 word"
  defines "st1 \<equiv> (stat m)[pos m := \<lparr>paired = False, tid = Tid msg, tseq = Tseq msg,
                      bytes = NetTrafficSize msg, timestamp = ts\<rparr>]"
  defines "seqs \<equiv> map (\<lambda>u. sint (tseq u)) (take (pos m + 1) st1)"
  assumes "length (stat m) = StatBufferSize" and "pos m < StatBufferSize"
    and "closesWindow m ts"
  shows "\<exists>st2 w m'.
           windowLoop (pos m + 1) st1 = (st2, w)
           \<and> (sint (minSeq w), sint (maxSeq w)) = specMinMax seqs
           \<and> sint (packetShould w) = specPacketShould (specMinMax seqs)
           \<and> Process k m msg ts =
               Inr (m', 0 < specPacketShould (specMinMax seqs),
                    if 0 < specPacketShould (specMinMax seqs)
                    then Some (uplinkFrame k msg (pos m + 1) st2 w) else None)"
proof -
  obtain st2 w where wl: "windowLoop (pos m + 1) st1 = (st2, w)"
    by (cases "windowLoop (pos m + 1) st1")
  have "pos m + 1 \<le> length st1"
    using assms(3,4) by (simp add: st1_def)
  from windowLoop_spec [OF this wl]
  have mm: "(sint (minSeq w), sint (maxSeq w)) = specMinMax seqs"
    by (simp add: seqs_def)
  have ps: "sint (packetShould w) = specPacketShould (specMinMax seqs)"
    using packetShould_spec [of w] mm by simp
  have "\<exists>m'. Process k m msg ts =
               Inr (m', 0 < specPacketShould (specMinMax seqs),
                    if 0 < specPacketShould (specMinMax seqs)
                    then Some (uplinkFrame k msg (pos m + 1) st2 w) else None)"
    using assms(4,5) wl ps
    by (auto simp: Process_def Let_def st1_def)
  with wl mm ps show ?thesis by blast
qed


theorem C7_sequence_arithmetic_witness:
  "length (stat exMetrics) = StatBufferSize \<and> pos exMetrics < StatBufferSize
   \<and> closesWindow exMetrics 2000000000
   \<and> (\<exists>st2 w m'.
        windowLoop (pos exMetrics + 1)
          ((stat exMetrics)[pos exMetrics := \<lparr>paired = False, tid = Tid exMedia,
              tseq = Tseq exMedia, bytes = NetTrafficSize exMedia,
              timestamp = 2000000000\<rparr>]) = (st2, w)
        \<and> sint (packetShould w) =
            specPacketShould (specMinMax (map (\<lambda>u. sint (tseq u))
              (take (pos exMetrics + 1)
                 ((stat exMetrics)[pos exMetrics := \<lparr>paired = False, tid = Tid exMedia,
                    tseq = Tseq exMedia, bytes = NetTrafficSize exMedia,
                    timestamp = 2000000000\<rparr>])))))"
proof -
  have h: "length (stat exMetrics) = StatBufferSize" "pos exMetrics < StatBufferSize"
    "closesWindow exMetrics 2000000000"
    by (simp_all add: exMetrics_def NewMetrics_def StatBufferSize_def closesWindow_def)
  from h C7_sequence_arithmetic [OF h, of exMedia exFrameConstants] show ?thesis by blast
qed


end
